theory Spec2Isabelle
  imports Main "HOL-Library.Word"
begin

section \<open>The download file server (selenium/base/fileserver/main.go)\<close>

text \<open>
  The program is one HTTP handler over one directory.  It is modelled as follows.
  \<^item> A Go \<open>string\<close> is a byte sequence: \<open>string\<close> (a \<open>char list\<close>).
  \<^item> A Go \<open>error\<close> is used by the program only through its message
    (\<open>err.Error()\<close>, \<open>%v\<close>), so an error is its message.
  \<^item> \<open>int64\<close> is \<open>64 word\<close>, compared through \<open>sint\<close>.
  \<^item> What the operating system and the Go library answer during one request is a record
    \<open>env\<close> of result functions; every theorem over an arbitrary \<open>env\<close> holds whatever
    the platform answers.  A concrete tree-shaped file system \<open>posix\<close> is one such \<open>env\<close>.
  \<^item> The \<open>http.ResponseWriter\<close> is a record that is passed through the handler, and each
    handler also returns the list of the operating-system calls it made.
\<close>

subsection \<open>Strings\<close>

type_synonym error = string

text \<open>
  \<open>strings.ToLower\<close>.  On a string of ASCII bytes Go maps \<open>A..Z\<close> to \<open>a..z\<close>
  byte by byte, which is what is written here.  On other strings Go lower-cases rune by rune;
  the result then still holds a rune outside ASCII, or a \<open>k\<close> or an \<open>i\<close> (from U+212A and
  U+0130, the only runes outside ASCII whose lower case is ASCII), so it differs from each of
  \<open>md5\<close>, \<open>sha1\<close> and \<open>sha256\<close> exactly as the byte-wise result does.
\<close>

definition lower_byte :: "char \<Rightarrow> char" where
  "lower_byte c =
     (let n = (of_char c :: nat) in if 65 \<le> n \<and> n \<le> 90 then char_of (n + 32) else c)"

definition strings_ToLower :: "string \<Rightarrow> string" where
  "strings_ToLower s = map lower_byte s"

text \<open>\<open>strings.TrimPrefix(s, "/")\<close>: \<open>s\<close> without one leading slash when it has one.\<close>

fun strings_TrimPrefix_slash :: "string \<Rightarrow> string" where
  "strings_TrimPrefix_slash [] = []"
| "strings_TrimPrefix_slash (c # cs) = (if c = CHR ''/'' then cs else c # cs)"

text \<open>\<open>fmt.Sprintf("%x", b)\<close> on a byte slice: two lower-case hexadecimal digits a byte.\<close>

definition hex_digit :: "nat \<Rightarrow> char" where
  "hex_digit n = (if n < 10 then char_of (48 + n) else char_of (87 + n))"

definition hex_bytes :: "string \<Rightarrow> string" where
  "hex_bytes bs = concat (map (\<lambda>c. [hex_digit ((of_char c :: nat) div 16),
                                      hex_digit ((of_char c :: nat) mod 16)]) bs)"

subsection \<open>Hash Selector\<close>

datatype hash_algo = MD5 | SHA1 | SHA256

text \<open>
  A \<open>hash.Hash\<close>: the algorithm and the bytes written to it so far.  \<open>md5.New()\<close>,
  \<open>sha1.New()\<close> and \<open>sha256.New()\<close> return one that has absorbed nothing.
\<close>

record hash_Hash =
  algo_of :: hash_algo
  absorbed :: string

definition hash_New :: "hash_algo \<Rightarrow> hash_Hash" where
  "hash_New a = \<lparr>algo_of = a, absorbed = []\<rparr>"

text \<open>\<open>NewHash\<close>; the \<open>nil\<close> interface value is \<open>None\<close>.\<close>

definition NewHash :: "string \<Rightarrow> hash_Hash option" where
  "NewHash algo =
     (let s = strings_ToLower algo in
      if s = ''md5'' then Some (hash_New MD5)
      else if s = ''sha1'' then Some (hash_New SHA1)
      else if s = ''sha256'' then Some (hash_New SHA256)
      else None)"

subsection \<open>Paths\<close>

text \<open>
  \<open>filepath.Clean\<close> and \<open>filepath.Join\<close> of the Go library, on a system whose separator
  is the slash: a path is cut at its slashes, empty elements and \<open>.\<close> are dropped, \<open>..\<close>
  removes the element before it (at the start of a rooted path it is dropped, at the start of
  a relative one it stays), and the empty result is \<open>.\<close>.  \<open>Join\<close> skips its leading
  empty arguments, puts a slash between the others and cleans; with none left it is empty.
\<close>

fun split_slash :: "string \<Rightarrow> string list" where
  "split_slash [] = [[]]"
| "split_slash (c # cs) =
     (if c = CHR ''/'' then [] # split_slash cs
      else (case split_slash cs of [] \<Rightarrow> [[c]] | x # xs \<Rightarrow> (c # x) # xs))"

definition elements :: "string \<Rightarrow> string list" where
  "elements p = filter (\<lambda>e. e \<noteq> [] \<and> e \<noteq> ''.'') (split_slash p)"

definition rooted :: "string \<Rightarrow> bool" where
  "rooted p = (case p of [] \<Rightarrow> False | c # _ \<Rightarrow> c = CHR ''/'')"

definition dotdot_step :: "bool \<Rightarrow> string list \<Rightarrow> string \<Rightarrow> string list" where
  "dotdot_step r stack e =
     (if e = ''..'' then
        (if stack \<noteq> [] \<and> last stack \<noteq> ''..'' then butlast stack
         else if r then stack
         else stack @ [e])
      else stack @ [e])"

fun join_slash :: "string list \<Rightarrow> string" where
  "join_slash [] = []"
| "join_slash [e] = e"
| "join_slash (e # es) = e @ ''/'' @ join_slash es"

definition filepath_Clean :: "string \<Rightarrow> string" where
  "filepath_Clean p =
     (let r = rooted p;
          out = (if r then ''/'' else []) @ join_slash (foldl (dotdot_step r) [] (elements p))
      in if out = [] then ''.'' else out)"

definition filepath_Join :: "string list \<Rightarrow> string" where
  "filepath_Join elems =
     (case dropWhile (\<lambda>e. e = []) elems of
        [] \<Rightarrow> []
      | es \<Rightarrow> filepath_Clean (join_slash es))"

subsection \<open>The platform: files, directory entries, operating-system calls\<close>

text \<open>
  \<open>fs.FileInfo\<close> as the program reads it: \<open>Name()\<close>, \<open>Size()\<close>, \<open>ModTime().Unix()\<close>;
  \<open>fi_IsDir\<close> is kept for the statements about subdirectories.
\<close>

record fs_FileInfo =
  fi_Name :: string
  fi_Size :: "64 word"
  fi_ModTime_Unix :: "64 word"
  fi_IsDir :: bool

text \<open>An \<open>os.DirEntry\<close>: its \<open>Name()\<close> and what its \<open>Info()\<close> returns.\<close>

record os_DirEntry =
  de_Name :: string
  de_Info :: "error + fs_FileInfo"

text \<open>
  An open \<open>*os.File\<close>: what reading it to its end gives, its bytes or the read error.
\<close>

record os_File =
  read_all :: "error + string"

text \<open>The calls the handlers make, in the order they make them.\<close>

datatype syscall =
    ReadDir string
  | EntryInfo string
  | Open string
  | Read string
  | Close string
  | Stat string
  | Remove string

subsection \<open>HTTP\<close>

text \<open>
  A request, as far as the router and the handler read it: \<open>r.Method\<close>, \<open>r.URL.Path\<close>,
  \<open>r.URL.RawQuery\<close>, and the key and value pairs that \<open>url.ParseQuery\<close> finds in the
  query string, in their order.  \<open>r.URL.Query()\<close> is the \<open>url.Values\<close> built from them: a
  key is in the map when a pair has it, and its values are those of its pairs, in order.
  A request whose request line has \<open>*\<close> in the place of a path, which the ServeMux answers
  with 400 before any routing, is not a value of this type.
\<close>

record http_Request =
  Method :: string
  URL_Path :: string
  URL_RawQuery :: string
  URL_pairs :: "(string \<times> string) list"

definition URL_Query :: "http_Request \<Rightarrow> string \<Rightarrow> string list option" where
  "URL_Query r key =
     (case map snd (filter (\<lambda>kv. fst kv = key) (URL_pairs r)) of
        [] \<Rightarrow> None
      | vs \<Rightarrow> Some vs)"

text \<open>
  JSON values, as \<open>encoding/json\<close> builds them from the program's data before writing
  them out; an object keeps its fields in order.  \<open>JStr\<close> holds the Go string; the encoder
  writes it with its escapes, and with U+FFFD for bytes that are not valid UTF-8.
\<close>

datatype json =
    JNull
  | JNum int
  | JStr string
  | JArr "json list"
  | JObj "(string \<times> json) list"

text \<open>
  What has been written to the response body: bytes, or one JSON document written by
  \<open>json.Encoder.Encode\<close> (the encoding of the value and a newline).
\<close>

datatype chunk = Bytes string | JsonDoc json

text \<open>
  The \<open>http.ResponseWriter\<close>: the header map, the status once it has been written, and
  the body written so far.  A response whose status was never written goes out as 200.
\<close>

record ResponseWriter =
  header :: "string \<Rightarrow> string list"
  status :: "nat option"
  written :: "chunk list"

definition new_ResponseWriter :: ResponseWriter where
  "new_ResponseWriter = \<lparr>header = (\<lambda>_. []), status = None, written = []\<rparr>"

definition status_sent :: "ResponseWriter \<Rightarrow> nat" where
  "status_sent w = (case status w of None \<Rightarrow> 200 | Some c \<Rightarrow> c)"

definition Header_Set :: "string \<Rightarrow> string \<Rightarrow> ResponseWriter \<Rightarrow> ResponseWriter" where
  "Header_Set k v w = w\<lparr>header := (header w)(k := [v])\<rparr>"

definition Header_Add :: "string \<Rightarrow> string \<Rightarrow> ResponseWriter \<Rightarrow> ResponseWriter" where
  "Header_Add k v w = w\<lparr>header := (header w)(k := header w k @ [v])\<rparr>"

definition Header_Del :: "string \<Rightarrow> ResponseWriter \<Rightarrow> ResponseWriter" where
  "Header_Del k w = w\<lparr>header := (header w)(k := [])\<rparr>"

text \<open>\<open>WriteHeader\<close> has an effect the first time only; a write sends 200 first if needed.\<close>

definition WriteHeader :: "nat \<Rightarrow> ResponseWriter \<Rightarrow> ResponseWriter" where
  "WriteHeader code w = (case status w of None \<Rightarrow> w\<lparr>status := Some code\<rparr> | Some _ \<Rightarrow> w)"

definition Write :: "chunk \<Rightarrow> ResponseWriter \<Rightarrow> ResponseWriter" where
  "Write c w = (let w' = WriteHeader 200 w in w'\<lparr>written := written w' @ [c]\<rparr>)"

text \<open>
  \<open>http.Error\<close>: a plain-text content type, the status, and the message with a newline.
\<close>

definition http_Error :: "ResponseWriter \<Rightarrow> string \<Rightarrow> nat \<Rightarrow> ResponseWriter" where
  "http_Error w err code =
     Write (Bytes (err @ [CHR 0x0A]))
       (WriteHeader code
         (Header_Set ''X-Content-Type-Options'' ''nosniff''
           (Header_Set ''Content-Type'' ''text/plain; charset=utf-8''
             (Header_Del ''Content-Length'' w))))"

text \<open>
  What the \<open>http.ServeMux\<close> writes by itself.  \<open>http.NotFound\<close> is the error
  \<open>404 page not found\<close>.  \<open>http.Redirect\<close> puts the URL, with every byte outside ASCII
  written as a percent sign and two hexadecimal digits, in the \<open>Location\<close> header, writes the
  status, and for a \<open>GET\<close> request (for \<open>GET\<close> and \<open>HEAD\<close>, the content type) adds a short
  HTML body, unless a content type was set before; the URL it is given below is a clean
  path with its query, which its own cleaning leaves as it is.  The URL is that of
  \<open>url.URL{Path, RawQuery}.String()\<close>: the path with the bytes that a path may not hold
  written as a percent sign and two upper-case hexadecimal digits, then the query after a
  question mark when it is not empty.
\<close>

definition http_NotFound :: "ResponseWriter \<Rightarrow> ResponseWriter" where
  "http_NotFound w = http_Error w ''404 page not found'' 404"

definition upperhex_digit :: "nat \<Rightarrow> char" where
  "upperhex_digit n = (if n < 10 then char_of (48 + n) else char_of (55 + n))"

definition shouldEscape_path :: "char \<Rightarrow> bool" where
  "shouldEscape_path c =
     (let n = (of_char c :: nat)
      in \<not> ((97 \<le> n \<and> n \<le> 122) \<or> (65 \<le> n \<and> n \<le> 90) \<or> (48 \<le> n \<and> n \<le> 57)
            \<or> c \<in> set ''-_.~$&+,/:;=@''))"

definition escape_path :: "string \<Rightarrow> string" where
  "escape_path p =
     concat (map (\<lambda>c. if shouldEscape_path c
                        then [CHR ''%'', upperhex_digit ((of_char c :: nat) div 16),
                              upperhex_digit ((of_char c :: nat) mod 16)]
                        else [c]) p)"

definition URL_String :: "string \<Rightarrow> string \<Rightarrow> string" where
  "URL_String path rawQuery =
     escape_path path @ (if rawQuery = [] then [] else CHR ''?'' # rawQuery)"

definition hexEscapeNonASCII :: "string \<Rightarrow> string" where
  "hexEscapeNonASCII s =
     concat (map (\<lambda>c. if 128 \<le> (of_char c :: nat)
                        then [CHR ''%'', hex_digit ((of_char c :: nat) div 16),
                              hex_digit ((of_char c :: nat) mod 16)]
                        else [c]) s)"

definition htmlEscape :: "string \<Rightarrow> string" where
  "htmlEscape s =
     concat (map (\<lambda>c. if c = CHR ''&'' then ''&amp;''
                        else if c = CHR ''<'' then ''&lt;''
                        else if c = CHR ''>'' then ''&gt;''
                        else if c = CHR 0x22 then ''&#34;''
                        else if c = CHR 0x27 then ''&#39;''
                        else [c]) s)"

definition http_Redirect :: "ResponseWriter \<Rightarrow> http_Request \<Rightarrow> string \<Rightarrow> nat \<Rightarrow> ResponseWriter" where
  "http_Redirect w r url code =
     (let hadCT = (header w ''Content-Type'' \<noteq> []);
          w1 = Header_Set ''Location'' (hexEscapeNonASCII url) w;
          w2 = (if \<not> hadCT \<and> (Method r = ''GET'' \<or> Method r = ''HEAD'')
                then Header_Set ''Content-Type'' ''text/html; charset=utf-8'' w1 else w1);
          w3 = WriteHeader code w2
      in if \<not> hadCT \<and> Method r = ''GET''
         then Write (Bytes (''<a href='' @ [CHR 0x22] @ htmlEscape url @ [CHR 0x22] @ ''>''
                            @ ''Moved Permanently'' @ ''</a>.'' @ [CHR 0x0A, CHR 0x0A])) w3
         else w3)"

text \<open>
  The platform during one request: what each operating-system call answers for each path,
  the digest of each algorithm (\<open>h.Sum(nil)\<close> after the given bytes were written), and the
  static file server \<open>http.FileServer(http.Dir(dir))\<close>.
\<close>

record env =
  os_ReadDir :: "string \<Rightarrow> error + os_DirEntry list"
  os_Open :: "string \<Rightarrow> error + os_File"
  os_Stat :: "string \<Rightarrow> error + fs_FileInfo"
  os_Remove :: "string \<Rightarrow> error option"
  hash_Sum :: "hash_algo \<Rightarrow> string \<Rightarrow> string"
  http_FileServer :: "string \<Rightarrow> ResponseWriter \<Rightarrow> http_Request \<Rightarrow> ResponseWriter \<times> syscall list"

subsection \<open>Directory Lister\<close>

record FileInfo =
  Name :: string
  Size :: "64 word"
  LastModified :: "64 word"
  HashSum :: string

text \<open>
  A Go slice is \<open>nil\<close> or holds elements; \<open>make([]T, 0, n)\<close> is not \<open>nil\<close>, and
  \<open>append\<close> never returns \<open>nil\<close> here.  The difference shows in JSON: \<open>nil\<close> is written
  as \<open>null\<close>, an empty slice as \<open>[]\<close>.
\<close>

datatype 'a slice = NilSlice | Slice "'a list"

definition make_slice :: "'a slice" where
  "make_slice = Slice []"

fun append_slice :: "'a slice \<Rightarrow> 'a \<Rightarrow> 'a slice" where
  "append_slice NilSlice x = Slice [x]"
| "append_slice (Slice xs) x = Slice (xs @ [x])"

text \<open>
  \<open>sort.Slice\<close>.  The Go library sorts a slice of at most twelve elements by insertion,
  each element moving left while it is less than the one before it; that is the sort written
  here.  For longer slices the library promises only a sorted rearrangement, and nothing
  below uses more than that.
\<close>

fun insert_left :: "('a \<Rightarrow> 'a \<Rightarrow> bool) \<Rightarrow> 'a \<Rightarrow> 'a list \<Rightarrow> 'a list" where
  "insert_left lt x [] = [x]"
| "insert_left lt x (y # ys) =
     (if lt x y then y # insert_left lt x ys else x # y # ys)"

text \<open>The sorted prefix is kept reversed, so that its last element is at the head.\<close>

definition insertion_sort :: "('a \<Rightarrow> 'a \<Rightarrow> bool) \<Rightarrow> 'a list \<Rightarrow> 'a list" where
  "insertion_sort lt xs = rev (foldl (\<lambda>acc x. insert_left lt x acc) [] xs)"

fun sort_Slice :: "'a slice \<Rightarrow> ('a \<Rightarrow> 'a \<Rightarrow> bool) \<Rightarrow> 'a slice" where
  "sort_Slice NilSlice lt = NilSlice"
| "sort_Slice (Slice xs) lt = Slice (insertion_sort lt xs)"

text \<open>
  \<open>encoding/json\<close> on a \<open>FileInfo\<close>, by its field tags: \<open>hashSum\<close> has \<open>omitempty\<close>
  and is left out when the string is empty.
\<close>

definition marshal_FileInfo :: "FileInfo \<Rightarrow> json" where
  "marshal_FileInfo f =
     JObj ([(''name'', JStr (Name f)),
            (''size'', JNum (sint (Size f))),
            (''lastModified'', JNum (sint (LastModified f)))]
           @ (if HashSum f = [] then [] else [(''hashSum'', JStr (HashSum f))]))"

fun marshal_slice :: "('a \<Rightarrow> json) \<Rightarrow> 'a slice \<Rightarrow> json" where
  "marshal_slice m NilSlice = JNull"
| "marshal_slice m (Slice xs) = JArr (map m xs)"

text \<open>\<open>io.Copy(h, f)\<close>: all of the file is written to the hash, or the read fails.\<close>

definition io_Copy :: "hash_Hash \<Rightarrow> os_File \<Rightarrow> error + hash_Hash" where
  "io_Copy h f =
     (case read_all f of
        Inl err \<Rightarrow> Inl err
      | Inr bs \<Rightarrow> Inr (h\<lparr>absorbed := absorbed h @ bs\<rparr>))"

text \<open>
  \<open>getHash\<close>.  The file is opened first; only then is the algorithm looked up.  The
  deferred \<open>f.Close()\<close> runs on every return after the file was opened.
\<close>

definition getHash :: "env \<Rightarrow> string \<Rightarrow> string \<Rightarrow> (error + string) \<times> syscall list" where
  "getHash e file algo =
     (case os_Open e file of
        Inl err \<Rightarrow> (Inl (''failed to open file: '' @ err), [Open file])
      | Inr f \<Rightarrow>
          (case NewHash algo of
             None \<Rightarrow> (Inr [], [Open file, Close file])
           | Some h \<Rightarrow>
               (case io_Copy h f of
                  Inl err \<Rightarrow> (Inl (''failed to copy: '' @ err), [Open file, Read file, Close file])
                | Inr h' \<Rightarrow>
                    (Inr (hex_bytes (hash_Sum e (algo_of h') (absorbed h'))),
                     [Open file, Read file, Close file]))))"

text \<open>
  The loop of \<open>listFilesAsJson\<close> over the entries: it ends with the slice of records, or,
  at the first error, with the response writer after \<open>http.Error\<close>.
\<close>

fun list_entries ::
  "env \<Rightarrow> ResponseWriter \<Rightarrow> string \<Rightarrow> string \<Rightarrow> os_DirEntry list \<Rightarrow> FileInfo slice
     \<Rightarrow> (ResponseWriter + FileInfo slice) \<times> syscall list" where
  "list_entries e w dir algo [] files = (Inr files, [])"
| "list_entries e w dir algo (entry # rest) files =
     (case de_Info entry of
        Inl err \<Rightarrow> (Inl (http_Error w err 500), [EntryInfo (de_Name entry)])
      | Inr info \<Rightarrow>
          (case getHash e (dir @ ''/'' @ de_Name entry) algo of
             (Inl err, t) \<Rightarrow> (Inl (http_Error w err 500), EntryInfo (de_Name entry) # t)
           | (Inr hashFile, t) \<Rightarrow>
               (case list_entries e w dir algo rest
                       (append_slice files
                          \<lparr>Name = fi_Name info, Size = fi_Size info,
                           LastModified = fi_ModTime_Unix info, HashSum = hashFile\<rparr>) of
                  (r, t') \<Rightarrow> (r, EntryInfo (de_Name entry) # t @ t'))))"

definition listFilesAsJson ::
  "env \<Rightarrow> ResponseWriter \<Rightarrow> string \<Rightarrow> string \<Rightarrow> ResponseWriter \<times> syscall list" where
  "listFilesAsJson e w dir algo =
     (case os_ReadDir e dir of
        Inl err \<Rightarrow> (http_Error w err 500, [ReadDir dir])
      | Inr entries \<Rightarrow>
          (case list_entries e w dir algo entries make_slice of
             (Inl w', t) \<Rightarrow> (w', ReadDir dir # t)
           | (Inr files, t) \<Rightarrow>
               (let sorted_files =
                      sort_Slice files (\<lambda>a b. sint (LastModified b) < sint (LastModified a))
                in (Write (JsonDoc (marshal_slice marshal_FileInfo sorted_files))
                      (Header_Add ''Content-Type'' ''application/json'' w),
                    ReadDir dir # t))))"

subsection \<open>File Eraser\<close>

definition deleteFileIfExists ::
  "env \<Rightarrow> ResponseWriter \<Rightarrow> http_Request \<Rightarrow> string \<Rightarrow> ResponseWriter \<times> syscall list" where
  "deleteFileIfExists e w r dir =
     (let fileName = strings_TrimPrefix_slash (URL_Path r);
          filePath = filepath_Join [dir, fileName]
      in case os_Stat e filePath of
           Inl err \<Rightarrow> (http_Error w (''Unknown file '' @ fileName) 404, [Stat filePath])
         | Inr _ \<Rightarrow>
             (case os_Remove e filePath of
                Some err \<Rightarrow>
                  (http_Error w (''Failed to delete file '' @ fileName @ '': '' @ err) 500,
                   [Stat filePath, Remove filePath])
              | None \<Rightarrow> (w, [Stat filePath, Remove filePath])))"

subsection \<open>Request Router\<close>

text \<open>
  The function that \<open>mux\<close> registers for the pattern \<open>/\<close>.  \<open>hashSumQuery[0]\<close> would
  panic on an empty slice; a panic in a handler leaves the response as it was (\<open>URL_Query\<close>
  never gives such a slice).
\<close>

definition jsonParam :: string where
  "jsonParam = ''json''"

definition hashSum :: string where
  "hashSum = ''hash''"

definition mux_handler ::
  "env \<Rightarrow> string \<Rightarrow> ResponseWriter \<Rightarrow> http_Request \<Rightarrow> ResponseWriter \<times> syscall list" where
  "mux_handler e dir w r =
     (if Method r = ''DELETE'' then deleteFileIfExists e w r dir
      else
        (case URL_Query r jsonParam of
           Some _ \<Rightarrow>
             (case URL_Query r hashSum of
                Some hashSumQuery \<Rightarrow>
                  (case hashSumQuery of
                     [] \<Rightarrow> (w, [])
                   | v # _ \<Rightarrow> listFilesAsJson e w dir v)
              | None \<Rightarrow> listFilesAsJson e w dir [])
         | None \<Rightarrow> http_FileServer e dir w r))"

text \<open>
  \<open>cleanPath\<close> of \<open>net/http\<close>: the empty path is \<open>/\<close>; a slash is put in front of a
  path that has none; the path is cleaned (\<open>path.Clean\<close>, which is \<open>filepath.Clean\<close> where
  the separator is the slash), and the slash that the path ended with is put back.
\<close>

definition cleanPath :: "string \<Rightarrow> string" where
  "cleanPath p =
     (if p = [] then ''/''
      else
        (let p1 = (if hd p \<noteq> CHR ''/'' then CHR ''/'' # p else p);
             np = filepath_Clean p1
         in if last p1 = CHR ''/'' \<and> np \<noteq> ''/'' then
              (if length p1 = length np + 1 \<and> take (length np) p1 = np then p1 else np @ ''/'')
            else np))"

text \<open>
  \<open>mux\<close>: the \<open>http.ServeMux\<close> with that function as its only handler, on the pattern
  \<open>/\<close>, which matches every path that begins with a slash.  The ServeMux does not clean
  the path of a \<open>CONNECT\<close> request; it answers any other request whose path is not its own
  cleaned form with a redirect (301) to the cleaned path, without running the handler; a
  path that no pattern matches is not found (404).  (With \<open>/\<close> as the only pattern, the
  redirect of the ServeMux from a path to the same path with a slash added never applies.
  This is the routing of the Go library up to 1.21; later versions decide in the same way
  on the escaped form of the path.)
\<close>

definition ServeMux_route ::
  "env \<Rightarrow> string \<Rightarrow> string \<Rightarrow> ResponseWriter \<Rightarrow> http_Request \<Rightarrow> ResponseWriter \<times> syscall list" where
  "ServeMux_route e dir path w r =
     (if rooted path then mux_handler e dir w r else (http_NotFound w, []))"

definition mux :: "env \<Rightarrow> string \<Rightarrow> ResponseWriter \<Rightarrow> http_Request \<Rightarrow> ResponseWriter \<times> syscall list" where
  "mux e dir w r =
     (if Method r = ''CONNECT'' then ServeMux_route e dir (URL_Path r) w r
      else
        (let path = cleanPath (URL_Path r)
         in if path \<noteq> URL_Path r
            then (http_Redirect w r (URL_String path (URL_RawQuery r)) 301, [])
            else ServeMux_route e dir (URL_Path r) w r))"

subsection \<open>A concrete platform: a tree of files and directories\<close>

text \<open>
  A file has its bytes, its modification time and whether the server may read it; a
  directory has its entries by name, and the size and modification time that its metadata
  reports.  There are no links, and the working directory is the root.
\<close>

datatype node =
    File string "64 word" bool
  | Dir "(string \<times> node) list" "64 word" "64 word"

datatype errno = ENOENT | ENOTDIR | EISDIR | ENOTEMPTY | EACCES | EBUSY

fun strerror :: "errno \<Rightarrow> string" where
  "strerror ENOENT = ''no such file or directory''"
| "strerror ENOTDIR = ''not a directory''"
| "strerror EISDIR = ''is a directory''"
| "strerror ENOTEMPTY = ''directory not empty''"
| "strerror EACCES = ''permission denied''"
| "strerror EBUSY = ''device or resource busy''"

text \<open>The message of an \<open>*fs.PathError\<close>.\<close>

definition PathError :: "string \<Rightarrow> string \<Rightarrow> errno \<Rightarrow> error" where
  "PathError op path err = op @ '' '' @ path @ '': '' @ strerror err"

text \<open>
  Path resolution, one element at a time, from a node and the directories up it
  (nearest first): \<open>..\<close> goes up (and stays at the root), a name goes down.
\<close>

fun walk :: "node list \<times> node \<Rightarrow> string list \<Rightarrow> errno + (node list \<times> node)" where
  "walk st [] = Inr st"
| "walk (up, File c m r) (x # xs) = Inl ENOTDIR"
| "walk (up, Dir es sz m) (x # xs) =
     (if x = ''..'' then
        (case up of
           [] \<Rightarrow> walk ([], Dir es sz m) xs
         | p # ps \<Rightarrow> walk (ps, p) xs)
      else
        (case map_of es x of
           None \<Rightarrow> Inl ENOENT
         | Some n \<Rightarrow> walk (Dir es sz m # up, n) xs))"

definition resolve :: "node \<Rightarrow> string \<Rightarrow> errno + (node list \<times> node)" where
  "resolve fs path = (if path = [] then Inl ENOENT else walk ([], fs) (elements path))"

definition info_of :: "string \<Rightarrow> node \<Rightarrow> fs_FileInfo" where
  "info_of name n =
     (case n of
        File c m r \<Rightarrow>
          \<lparr>fi_Name = name, fi_Size = of_nat (length c), fi_ModTime_Unix = m, fi_IsDir = False\<rparr>
      | Dir es sz m \<Rightarrow>
          \<lparr>fi_Name = name, fi_Size = sz, fi_ModTime_Unix = m, fi_IsDir = True\<rparr>)"

text \<open>\<open>filepath.Base\<close>, for the name that \<open>os.Stat\<close> reports.\<close>

definition filepath_Base :: "string \<Rightarrow> string" where
  "filepath_Base p =
     (case filter (\<lambda>e. e \<noteq> []) (split_slash p) of
        [] \<Rightarrow> (if p = [] then ''.'' else ''/'')
      | es \<Rightarrow> last es)"

definition posix_Stat :: "node \<Rightarrow> string \<Rightarrow> error + fs_FileInfo" where
  "posix_Stat fs path =
     (case resolve fs path of
        Inl err \<Rightarrow> Inl (PathError ''stat'' path err)
      | Inr (up, n) \<Rightarrow> Inr (info_of (filepath_Base path) n))"

text \<open>Byte-wise order of strings, by which \<open>os.ReadDir\<close> sorts the entries.\<close>

fun bytes_less :: "string \<Rightarrow> string \<Rightarrow> bool" where
  "bytes_less [] [] = False"
| "bytes_less [] (y # ys) = True"
| "bytes_less (x # xs) [] = False"
| "bytes_less (x # xs) (y # ys) =
     ((of_char x :: nat) < of_char y \<or> (x = y \<and> bytes_less xs ys))"

definition posix_ReadDir :: "node \<Rightarrow> string \<Rightarrow> error + os_DirEntry list" where
  "posix_ReadDir fs path =
     (case resolve fs path of
        Inl err \<Rightarrow> Inl (PathError ''open'' path err)
      | Inr (up, File c m r) \<Rightarrow> Inl (PathError ''open'' path ENOTDIR)
      | Inr (up, Dir es sz m) \<Rightarrow>
          Inr (insertion_sort (\<lambda>a b. bytes_less (de_Name a) (de_Name b))
                 (map (\<lambda>(name, n). \<lparr>de_Name = name, de_Info = Inr (info_of name n)\<rparr>) es)))"

text \<open>
  A directory can be opened, but reading it fails; a file that may not be read cannot be
  opened.
\<close>

definition posix_Open :: "node \<Rightarrow> string \<Rightarrow> error + os_File" where
  "posix_Open fs path =
     (case resolve fs path of
        Inl err \<Rightarrow> Inl (PathError ''open'' path err)
      | Inr (up, File c m r) \<Rightarrow>
          (if r then Inr \<lparr>read_all = Inr c\<rparr> else Inl (PathError ''open'' path EACCES))
      | Inr (up, Dir es sz m) \<Rightarrow> Inr \<lparr>read_all = Inl (PathError ''read'' path EISDIR)\<rparr>)"

text \<open>
  \<open>os.Remove\<close> unlinks a file and removes a directory that is empty; the root cannot be
  removed.
\<close>

definition posix_Remove :: "node \<Rightarrow> string \<Rightarrow> error option" where
  "posix_Remove fs path =
     (case resolve fs path of
        Inl err \<Rightarrow> Some (PathError ''remove'' path err)
      | Inr (up, File c m r) \<Rightarrow> None
      | Inr (up, Dir es sz m) \<Rightarrow>
          (if up = [] then Some (PathError ''remove'' path EBUSY)
           else if es = [] then None
           else Some (PathError ''remove'' path ENOTEMPTY)))"

definition posix ::
  "node \<Rightarrow> (hash_algo \<Rightarrow> string \<Rightarrow> string)
     \<Rightarrow> (string \<Rightarrow> ResponseWriter \<Rightarrow> http_Request \<Rightarrow> ResponseWriter \<times> syscall list) \<Rightarrow> env" where
  "posix fs dg srv =
     \<lparr>os_ReadDir = posix_ReadDir fs, os_Open = posix_Open fs, os_Stat = posix_Stat fs,
      os_Remove = posix_Remove fs, hash_Sum = dg, http_FileServer = srv\<rparr>"

text \<open>
  A tree is well formed when the names in each directory are distinct and are names: not
  empty, without a slash, and neither \<open>.\<close> nor \<open>..\<close>.
\<close>

definition valid_name :: "string \<Rightarrow> bool" where
  "valid_name n = (n \<noteq> [] \<and> CHR ''/'' \<notin> set n \<and> n \<noteq> ''.'' \<and> n \<noteq> ''..'')"

fun wf_node :: "node \<Rightarrow> bool" where
  "wf_node (File c m r) = True"
| "wf_node (Dir es sz m) =
     (distinct (map fst es) \<and> list_all (\<lambda>(name, n). valid_name name \<and> wf_node n) es)"

text \<open>A node that the server can open: a directory, or a file that it may read.\<close>

fun openable :: "node \<Rightarrow> bool" where
  "openable (File c m r) = r"
| "openable (Dir es sz m) = True"

subsection \<open>Vocabulary of the statements\<close>

text \<open>The elements of a slice, and the field of a JSON object by its name.\<close>

fun elems :: "'a slice \<Rightarrow> 'a list" where
  "elems NilSlice = []"
| "elems (Slice xs) = xs"

fun json_field :: "string \<Rightarrow> json \<Rightarrow> json option" where
  "json_field name (JObj kvs) = map_of kvs name"
| "json_field name _ = None"

text \<open>
  A read of the file system fails for an entry when its \<open>Info()\<close> fails, when its file
  cannot be opened, or when a hash is computed and reading the file fails; it fails for the
  listing when the directory cannot be read or it fails for one of the entries.
\<close>

definition entry_fails :: "env \<Rightarrow> string \<Rightarrow> string \<Rightarrow> os_DirEntry \<Rightarrow> bool" where
  "entry_fails e dir algo entry =
     (case de_Info entry of
        Inl _ \<Rightarrow> True
      | Inr _ \<Rightarrow>
          (case os_Open e (dir @ ''/'' @ de_Name entry) of
             Inl _ \<Rightarrow> True
           | Inr f \<Rightarrow> NewHash algo \<noteq> None \<and> isl (read_all f)))"

definition listing_fails :: "env \<Rightarrow> string \<Rightarrow> string \<Rightarrow> bool" where
  "listing_fails e dir algo =
     (case os_ReadDir e dir of
        Inl _ \<Rightarrow> True
      | Inr entries \<Rightarrow> list_ex (entry_fails e dir algo) entries)"

text \<open>The calls made for one entry when nothing fails.\<close>

definition entry_calls :: "string \<Rightarrow> string \<Rightarrow> os_DirEntry \<Rightarrow> syscall list" where
  "entry_calls dir algo entry =
     (let file = dir @ ''/'' @ de_Name entry
      in [EntryInfo (de_Name entry), Open file]
         @ (if NewHash algo = None then [] else [Read file])
         @ [Close file])"

text \<open>
  The entries that the loop handles: those before the first one for which a read fails,
  and that one.  The calls made for an entry that is handled: its \<open>Info()\<close>; when that
  succeeded, the opening of its file; when the file is open, the read if a hash is
  computed, and the close.
\<close>

fun handled :: "('a \<Rightarrow> bool) \<Rightarrow> 'a list \<Rightarrow> 'a list" where
  "handled fails [] = []"
| "handled fails (x # xs) = (if fails x then [x] else x # handled fails xs)"

definition calls_for :: "env \<Rightarrow> string \<Rightarrow> string \<Rightarrow> os_DirEntry \<Rightarrow> syscall list" where
  "calls_for e dir algo entry =
     (let file = dir @ ''/'' @ de_Name entry
      in EntryInfo (de_Name entry) #
         (case de_Info entry of
            Inl _ \<Rightarrow> []
          | Inr _ \<Rightarrow>
              Open file #
              (case os_Open e file of
                 Inl _ \<Rightarrow> []
               | Inr _ \<Rightarrow> (if NewHash algo = None then [] else [Read file]) @ [Close file])))"

text \<open>
  The record that the loop appends for an entry whose \<open>Info()\<close> and \<open>getHash\<close> both
  succeed (for another entry, the record of no file).
\<close>

definition entry_record :: "env \<Rightarrow> string \<Rightarrow> string \<Rightarrow> os_DirEntry \<Rightarrow> FileInfo" where
  "entry_record e dir algo entry =
     (case (de_Info entry, fst (getHash e (dir @ ''/'' @ de_Name entry) algo)) of
        (Inr info, Inr hashFile) \<Rightarrow>
          \<lparr>Name = fi_Name info, Size = fi_Size info,
           LastModified = fi_ModTime_Unix info, HashSum = hashFile\<rparr>
      | _ \<Rightarrow> \<lparr>Name = [], Size = 0, LastModified = 0, HashSum = []\<rparr>)"

text \<open>The comparison that \<open>listFilesAsJson\<close> gives to \<open>sort.Slice\<close>.\<close>

definition newer :: "FileInfo \<Rightarrow> FileInfo \<Rightarrow> bool" where
  "newer a b = (sint (LastModified b) < sint (LastModified a))"

subsection \<open>Sample platforms\<close>

text \<open>
  The downloads directory of the default user with the given entries, under a root that
  holds nothing else; a digest and a static server that stand for the library's.
\<close>

definition downloads :: string where
  "downloads = ''/home/selenium/Downloads''"

definition tree_with :: "(string \<times> node) list \<Rightarrow> node" where
  "tree_with es =
     Dir [(''home'', Dir [(''selenium'', Dir [(''Downloads'', Dir es 4096 300)] 4096 10)] 4096 10)]
       4096 10"

definition platform_with :: "(string \<times> node) list \<Rightarrow> env" where
  "platform_with es = posix (tree_with es) (\<lambda>a bs. bs) (\<lambda>dir w r. (w, []))"

definition two_files :: "(string \<times> node) list" where
  "two_files = [(''b.txt'', File ''hi'' 200 True), (''a.txt'', File ''hello'' 100 True)]"

definition files_and_subdir :: "(string \<times> node) list" where
  "files_and_subdir =
     [(''b.txt'', File ''hi'' 200 True), (''sub'', Dir [(''x'', File [] 5 True)] 4096 150),
      (''a.txt'', File ''hello'' 100 True)]"

definition locked_file :: "(string \<times> node) list" where
  "locked_file = [(''a.txt'', File ''hello'' 100 False)]"

definition locked_then_readable :: "(string \<times> node) list" where
  "locked_then_readable =
     [(''a.txt'', File ''hello'' 100 False), (''b.txt'', File ''hi'' 200 True)]"

text \<open>
  A platform on which an entry is gone by the time its \<open>Info()\<close> is asked for.
\<close>

definition platform_vanished :: env where
  "platform_vanished =
     (platform_with two_files)
       \<lparr>os_ReadDir := (\<lambda>p. Inr [\<lparr>de_Name = ''gone.txt'',
           de_Info = Inl ''lstat /home/selenium/Downloads/gone.txt: no such file or directory''\<rparr>])\<rparr>"

section \<open>Properties\<close>

subsection \<open>Hash Selector\<close>

text \<open>
  Claim C5.  For every algorithm name: when its lower-cased form is \<open>md5\<close>, \<open>sha1\<close> or
  \<open>sha256\<close>, \<open>NewHash\<close> returns a hash of that algorithm that has absorbed nothing yet;
  for every other name, the empty one included, it returns \<open>nil\<close>.  \<open>NewHash\<close> has no
  error result.
\<close>

theorem NewHash_selects:
  "(strings_ToLower algo = ''md5'' \<longrightarrow> NewHash algo = Some \<lparr>algo_of = MD5, absorbed = []\<rparr>) \<and>
   (strings_ToLower algo = ''sha1'' \<longrightarrow> NewHash algo = Some \<lparr>algo_of = SHA1, absorbed = []\<rparr>) \<and>
   (strings_ToLower algo = ''sha256'' \<longrightarrow> NewHash algo = Some \<lparr>algo_of = SHA256, absorbed = []\<rparr>) \<and>
   (strings_ToLower algo \<notin> {''md5'', ''sha1'', ''sha256''} \<longrightarrow> NewHash algo = None) \<and>
   NewHash [] = None"
  by (simp add: NewHash_def hash_New_def strings_ToLower_def)

theorem NewHash_selects_witness:
  "NewHash ''Md5'' = Some \<lparr>algo_of = MD5, absorbed = []\<rparr> \<and>
   NewHash ''SHA1'' = Some \<lparr>algo_of = SHA1, absorbed = []\<rparr> \<and>
   NewHash ''sha256'' = Some \<lparr>algo_of = SHA256, absorbed = []\<rparr> \<and>
   NewHash ''sha512'' = None"
proof -
  have l: "strings_ToLower ''Md5'' = ''md5''" "strings_ToLower ''SHA1'' = ''sha1''"
    "strings_ToLower ''sha256'' = ''sha256''" "strings_ToLower ''sha512'' = ''sha512''"
    by code_simp+
  show ?thesis
    using NewHash_selects [of "''Md5''"] NewHash_selects [of "''SHA1''"]
      NewHash_selects [of "''sha256''"] NewHash_selects [of "''sha512''"]
    unfolding l by simp
qed

subsection \<open>Responses and query strings\<close>

lemma http_Error_fresh:
  "status (http_Error new_ResponseWriter err code) = Some code"
  "written (http_Error new_ResponseWriter err code) = [Bytes (err @ [CHR 0x0A])]"
  "header (http_Error new_ResponseWriter err code) ''Content-Type'' = [''text/plain; charset=utf-8'']"
  by (simp_all add: http_Error_def new_ResponseWriter_def Write_def WriteHeader_def
      Header_Set_def Header_Del_def Let_def)

lemma new_ResponseWriter_fields:
  "status new_ResponseWriter = None" "written new_ResponseWriter = []"
  "header new_ResponseWriter k = []"
  by (simp_all add: new_ResponseWriter_def)

lemma values_empty_iff:
  "map snd (filter (\<lambda>kv. fst kv = k) ps) = [] \<longleftrightarrow> k \<notin> fst ` set ps"
  by (induction ps) auto

lemma values_first:
  "map snd (filter (\<lambda>kv. fst kv = k) ps) = v # vs \<Longrightarrow> map_of ps k = Some v"
  by (induction ps) (auto split: if_splits)

lemma URL_Query_None: "URL_Query r k = None \<longleftrightarrow> k \<notin> fst ` set (URL_pairs r)"
  using values_empty_iff [of k "URL_pairs r"]
  by (auto simp: URL_Query_def split: list.splits)

lemma URL_Query_Some:
  "URL_Query r k = Some vs \<Longrightarrow> \<exists>v rest. vs = v # rest \<and> map_of (URL_pairs r) k = Some v"
  using values_first [of k "URL_pairs r"]
  by (auto simp: URL_Query_def split: list.splits)

subsection \<open>Request Router\<close>

lemma mux_handler_dispatch:
  "(Method r = ''DELETE'' \<longrightarrow> mux_handler e dir w r = deleteFileIfExists e w r dir) \<and>
   (Method r \<noteq> ''DELETE'' \<and> ''json'' \<in> fst ` set (URL_pairs r) \<longrightarrow>
      mux_handler e dir w r =
        listFilesAsJson e w dir (case map_of (URL_pairs r) ''hash'' of Some v \<Rightarrow> v | None \<Rightarrow> [])) \<and>
   (Method r \<noteq> ''DELETE'' \<and> ''json'' \<notin> fst ` set (URL_pairs r) \<longrightarrow>
      mux_handler e dir w r = http_FileServer e dir w r)"
proof (intro conjI impI)
  assume "Method r = ''DELETE''"
  then show "mux_handler e dir w r = deleteFileIfExists e w r dir"
    by (simp add: mux_handler_def)
next
  assume h: "Method r \<noteq> ''DELETE'' \<and> ''json'' \<in> fst ` set (URL_pairs r)"
  then obtain js where js: "URL_Query r ''json'' = Some js"
    using URL_Query_None [of r "''json''"] by (cases "URL_Query r ''json''") auto
  show "mux_handler e dir w r =
        listFilesAsJson e w dir (case map_of (URL_pairs r) ''hash'' of Some v \<Rightarrow> v | None \<Rightarrow> [])"
  proof (cases "URL_Query r ''hash''")
    case None
    then have "''hash'' \<notin> fst ` set (URL_pairs r)" by (simp add: URL_Query_None)
    then have "map_of (URL_pairs r) ''hash'' = None" by (simp add: map_of_eq_None_iff)
    with h js None show ?thesis by (simp add: mux_handler_def jsonParam_def hashSum_def)
  next
    case (Some vs)
    then obtain v rest where "vs = v # rest" "map_of (URL_pairs r) ''hash'' = Some v"
      using URL_Query_Some by blast
    with h js Some show ?thesis by (simp add: mux_handler_def jsonParam_def hashSum_def)
  qed
next
  assume h: "Method r \<noteq> ''DELETE'' \<and> ''json'' \<notin> fst ` set (URL_pairs r)"
  then have "URL_Query r ''json'' = None" by (simp add: URL_Query_None)
  with h show "mux_handler e dir w r = http_FileServer e dir w r"
    by (simp add: mux_handler_def jsonParam_def)
qed

lemma rooted_cleanPath: "rooted (cleanPath p)"
proof -
  have c: "rooted (filepath_Clean (CHR ''/'' # q))" for q
    by (simp add: filepath_Clean_def rooted_def Let_def)
  have a: "rooted (x @ y)" if "rooted x" for x y :: string
    using that by (cases x) (simp_all add: rooted_def)
  show ?thesis
  proof (cases p)
    case Nil
    then show ?thesis by (simp add: cleanPath_def rooted_def)
  next
    case (Cons ch q)
    show ?thesis
    proof (cases "ch = CHR ''/''")
      case True
      then show ?thesis
        using c [of q] a [OF c [of q], of "''/''"]
        by (simp add: cleanPath_def Cons Let_def rooted_def)
    next
      case False
      then show ?thesis
        using c [of "ch # q"] a [OF c [of "ch # q"], of "''/''"]
        by (simp add: cleanPath_def Cons Let_def rooted_def)
    qed
  qed
qed

lemma mux_routed:
  assumes "if Method r = ''CONNECT'' then rooted (URL_Path r)
           else cleanPath (URL_Path r) = URL_Path r"
  shows "mux e dir w r = mux_handler e dir w r"
proof (cases "Method r = ''CONNECT''")
  case True
  with assms show ?thesis by (simp add: mux_def ServeMux_route_def)
next
  case False
  with assms have c: "cleanPath (URL_Path r) = URL_Path r" by simp
  then have "rooted (URL_Path r)"
    using rooted_cleanPath [of "URL_Path r"] by simp
  with False c show ?thesis by (simp add: mux_def ServeMux_route_def Let_def)
qed

text \<open>
  Claim C1, as the specification states it: for every HTTP request, when the method is
  \<open>DELETE\<close> the File Eraser runs with the request path as the target.  This fails: \<open>mux\<close>
  returns an \<open>http.ServeMux\<close>, which answers a request whose path is not in its cleaned
  form with a redirect and does not run the handler.  \<open>DELETE //a.txt\<close> is answered with
  301 and \<open>Location: /a.txt\<close>, and no call to the file system is made, where the File Eraser
  on this request would have removed \<open>a.txt\<close>.
\<close>

theorem delete_noncanonical_path_counterexample:
  "Method \<lparr>Method = ''DELETE'', URL_Path = ''//a.txt'', URL_RawQuery = [], URL_pairs = []\<rparr> =
     ''DELETE'' \<and>
   status_sent (fst (mux (platform_with two_files) downloads new_ResponseWriter
     \<lparr>Method = ''DELETE'', URL_Path = ''//a.txt'', URL_RawQuery = [], URL_pairs = []\<rparr>)) = 301 \<and>
   header (fst (mux (platform_with two_files) downloads new_ResponseWriter
     \<lparr>Method = ''DELETE'', URL_Path = ''//a.txt'', URL_RawQuery = [], URL_pairs = []\<rparr>))
     ''Location'' = [''/a.txt''] \<and>
   snd (mux (platform_with two_files) downloads new_ResponseWriter
     \<lparr>Method = ''DELETE'', URL_Path = ''//a.txt'', URL_RawQuery = [], URL_pairs = []\<rparr>) = [] \<and>
   snd (deleteFileIfExists (platform_with two_files) new_ResponseWriter
     \<lparr>Method = ''DELETE'', URL_Path = ''//a.txt'', URL_RawQuery = [], URL_pairs = []\<rparr> downloads) =
     [Stat ''/home/selenium/Downloads/a.txt'', Remove ''/home/selenium/Downloads/a.txt''] \<and>
   mux (platform_with two_files) downloads new_ResponseWriter
     \<lparr>Method = ''DELETE'', URL_Path = ''//a.txt'', URL_RawQuery = [], URL_pairs = []\<rparr> \<noteq>
   deleteFileIfExists (platform_with two_files) new_ResponseWriter
     \<lparr>Method = ''DELETE'', URL_Path = ''//a.txt'', URL_RawQuery = [], URL_pairs = []\<rparr> downloads"
proof -
  let ?r = "\<lparr>Method = ''DELETE'', URL_Path = ''//a.txt'', URL_RawQuery = [], URL_pairs = []\<rparr>"
  let ?E = "platform_with two_files"
  have s: "status_sent (fst (mux ?E downloads new_ResponseWriter ?r)) = 301"
    by code_simp
  have l: "header (fst (mux ?E downloads new_ResponseWriter ?r)) ''Location'' = [''/a.txt'']"
    by code_simp
  have m: "snd (mux ?E downloads new_ResponseWriter ?r) = []"
    by code_simp
  have d: "snd (deleteFileIfExists ?E new_ResponseWriter ?r downloads) =
             [Stat ''/home/selenium/Downloads/a.txt'', Remove ''/home/selenium/Downloads/a.txt'']"
    by code_simp
  from m d have "mux ?E downloads new_ResponseWriter ?r \<noteq>
                 deleteFileIfExists ?E new_ResponseWriter ?r downloads"
    by auto
  with s l m d show ?thesis by simp
qed

text \<open>
  Claim C1, amended.  For every HTTP request that the ServeMux passes to the handler (a
  request whose path is its own cleaned form, or a \<open>CONNECT\<close> request whose path begins
  with a slash), in this order: when the method is \<open>DELETE\<close> the File Eraser runs on the
  request (whose path names the target); otherwise, when a pair of the query string has the
  key \<open>json\<close>, the Directory Lister runs, with the value of the first pair whose key is
  \<open>hash\<close> as the algorithm name, and with the empty name when there is no such pair;
  otherwise the static file server runs, whatever else the query string holds.
\<close>

theorem mux_dispatch_when_routed:
  assumes "if Method r = ''CONNECT'' then rooted (URL_Path r)
           else cleanPath (URL_Path r) = URL_Path r"
  shows
  "(Method r = ''DELETE'' \<longrightarrow> mux e dir w r = deleteFileIfExists e w r dir) \<and>
   (Method r \<noteq> ''DELETE'' \<and> ''json'' \<in> fst ` set (URL_pairs r) \<longrightarrow>
      mux e dir w r =
        listFilesAsJson e w dir (case map_of (URL_pairs r) ''hash'' of Some v \<Rightarrow> v | None \<Rightarrow> [])) \<and>
   (Method r \<noteq> ''DELETE'' \<and> ''json'' \<notin> fst ` set (URL_pairs r) \<longrightarrow>
      mux e dir w r = http_FileServer e dir w r)"
  unfolding mux_routed [OF assms] by (rule mux_handler_dispatch)

theorem mux_dispatch_when_routed_witness:
  "mux (platform_with two_files) downloads new_ResponseWriter
     \<lparr>Method = ''DELETE'', URL_Path = ''/a.txt'', URL_RawQuery = ''json'',
      URL_pairs = [(''json'', [])]\<rparr> =
   deleteFileIfExists (platform_with two_files) new_ResponseWriter
     \<lparr>Method = ''DELETE'', URL_Path = ''/a.txt'', URL_RawQuery = ''json'',
      URL_pairs = [(''json'', [])]\<rparr> downloads \<and>
   mux (platform_with two_files) downloads new_ResponseWriter
     \<lparr>Method = ''GET'', URL_Path = ''/a.txt'', URL_RawQuery = ''hash=md5&json&hash=sha1'',
      URL_pairs = [(''hash'', ''md5''), (''json'', []), (''hash'', ''sha1'')]\<rparr> =
   listFilesAsJson (platform_with two_files) new_ResponseWriter downloads ''md5'' \<and>
   mux (platform_with two_files) downloads new_ResponseWriter
     \<lparr>Method = ''POST'', URL_Path = ''/sub/'', URL_RawQuery = ''json=1'',
      URL_pairs = [(''json'', ''1'')]\<rparr> =
   listFilesAsJson (platform_with two_files) new_ResponseWriter downloads [] \<and>
   mux (platform_with two_files) downloads new_ResponseWriter
     \<lparr>Method = ''GET'', URL_Path = ''/a.txt'', URL_RawQuery = ''hash=md5'',
      URL_pairs = [(''hash'', ''md5'')]\<rparr> =
   http_FileServer (platform_with two_files) downloads new_ResponseWriter
     \<lparr>Method = ''GET'', URL_Path = ''/a.txt'', URL_RawQuery = ''hash=md5'',
      URL_pairs = [(''hash'', ''md5'')]\<rparr> \<and>
   mux (platform_with two_files) downloads new_ResponseWriter
     \<lparr>Method = ''CONNECT'', URL_Path = ''//a.txt'', URL_RawQuery = [], URL_pairs = []\<rparr> =
   http_FileServer (platform_with two_files) downloads new_ResponseWriter
     \<lparr>Method = ''CONNECT'', URL_Path = ''//a.txt'', URL_RawQuery = [], URL_pairs = []\<rparr>"
proof -
  have c: "cleanPath ''/a.txt'' = ''/a.txt''" "cleanPath ''/sub/'' = ''/sub/''"
    by code_simp+
  have r: "rooted ''//a.txt''"
    by (simp add: rooted_def)
  show ?thesis
    using c r
      mux_dispatch_when_routed [of "\<lparr>Method = ''DELETE'', URL_Path = ''/a.txt'',
        URL_RawQuery = ''json'', URL_pairs = [(''json'', [])]\<rparr>"
        "platform_with two_files" downloads new_ResponseWriter]
      mux_dispatch_when_routed [of "\<lparr>Method = ''GET'', URL_Path = ''/a.txt'',
        URL_RawQuery = ''hash=md5&json&hash=sha1'',
        URL_pairs = [(''hash'', ''md5''), (''json'', []), (''hash'', ''sha1'')]\<rparr>"
        "platform_with two_files" downloads new_ResponseWriter]
      mux_dispatch_when_routed [of "\<lparr>Method = ''POST'', URL_Path = ''/sub/'',
        URL_RawQuery = ''json=1'', URL_pairs = [(''json'', ''1'')]\<rparr>"
        "platform_with two_files" downloads new_ResponseWriter]
      mux_dispatch_when_routed [of "\<lparr>Method = ''GET'', URL_Path = ''/a.txt'',
        URL_RawQuery = ''hash=md5'', URL_pairs = [(''hash'', ''md5'')]\<rparr>"
        "platform_with two_files" downloads new_ResponseWriter]
      mux_dispatch_when_routed [of "\<lparr>Method = ''CONNECT'', URL_Path = ''//a.txt'',
        URL_RawQuery = [], URL_pairs = []\<rparr>"
        "platform_with two_files" downloads new_ResponseWriter]
    by simp
qed

subsection \<open>File Eraser\<close>

text \<open>
  Claim C2.  For every delete request, with \<open>N\<close> the path without its leading slash and the
  target \<open>N\<close> joined to the directory: when the target cannot be found (\<open>os.Stat\<close> fails),
  the response is 404, plain text, and says \<open>Unknown file N\<close>; when it is found and
  \<open>os.Remove\<close> fails, the response is 500, plain text, and its message names \<open>N\<close> and ends
  with the cause of the failure; when the removal succeeds nothing is written, so the body
  is empty and the status is the default 200.
\<close>

theorem deleteFileIfExists_outcomes:
  fixes e r dir
  defines "fileName \<equiv> strings_TrimPrefix_slash (URL_Path r)"
  defines "filePath \<equiv> filepath_Join [dir, fileName]"
  defines "w' \<equiv> fst (deleteFileIfExists e new_ResponseWriter r dir)"
  shows
  "(isl (os_Stat e filePath) \<longrightarrow>
      status_sent w' = 404 \<and>
      header w' ''Content-Type'' = [''text/plain; charset=utf-8''] \<and>
      written w' = [Bytes (''Unknown file '' @ fileName @ [CHR 0x0A])]) \<and>
   (\<not> isl (os_Stat e filePath) \<longrightarrow>
      (\<forall>cause. os_Remove e filePath = Some cause \<longrightarrow>
         status_sent w' = 500 \<and>
         header w' ''Content-Type'' = [''text/plain; charset=utf-8''] \<and>
         written w' = [Bytes (''Failed to delete file '' @ fileName @ '': '' @ cause @ [CHR 0x0A])]) \<and>
      (os_Remove e filePath = None \<longrightarrow> status_sent w' = 200 \<and> written w' = []))"
  unfolding w'_def filePath_def fileName_def
  by (auto simp: deleteFileIfExists_def Let_def http_Error_fresh status_sent_def
      new_ResponseWriter_fields split: sum.splits option.splits)

theorem deleteFileIfExists_outcomes_witness:
  "status_sent (fst (deleteFileIfExists (platform_with files_and_subdir) new_ResponseWriter
      \<lparr>Method = ''DELETE'', URL_Path = ''/ghost.txt'', URL_RawQuery = [], URL_pairs = []\<rparr> downloads)) = 404 \<and>
   written (fst (deleteFileIfExists (platform_with files_and_subdir) new_ResponseWriter
      \<lparr>Method = ''DELETE'', URL_Path = ''/ghost.txt'', URL_RawQuery = [], URL_pairs = []\<rparr> downloads)) =
     [Bytes (''Unknown file ghost.txt'' @ [CHR 0x0A])] \<and>
   status_sent (fst (deleteFileIfExists (platform_with files_and_subdir) new_ResponseWriter
      \<lparr>Method = ''DELETE'', URL_Path = ''/sub'', URL_RawQuery = [], URL_pairs = []\<rparr> downloads)) = 500 \<and>
   written (fst (deleteFileIfExists (platform_with files_and_subdir) new_ResponseWriter
      \<lparr>Method = ''DELETE'', URL_Path = ''/sub'', URL_RawQuery = [], URL_pairs = []\<rparr> downloads)) =
     [Bytes (''Failed to delete file sub: remove /home/selenium/Downloads/sub: directory not empty''
             @ [CHR 0x0A])] \<and>
   status_sent (fst (deleteFileIfExists (platform_with files_and_subdir) new_ResponseWriter
      \<lparr>Method = ''DELETE'', URL_Path = ''/a.txt'', URL_RawQuery = [], URL_pairs = []\<rparr> downloads)) = 200 \<and>
   written (fst (deleteFileIfExists (platform_with files_and_subdir) new_ResponseWriter
      \<lparr>Method = ''DELETE'', URL_Path = ''/a.txt'', URL_RawQuery = [], URL_pairs = []\<rparr> downloads)) = []"
proof -
  let ?E = "platform_with files_and_subdir"
  have g: "isl (os_Stat ?E (filepath_Join [downloads, ''ghost.txt'']))"
    by code_simp
  have s: "\<not> isl (os_Stat ?E (filepath_Join [downloads, ''sub'']))"
    "os_Remove ?E (filepath_Join [downloads, ''sub'']) =
       Some ''remove /home/selenium/Downloads/sub: directory not empty''"
    by code_simp+
  have a: "\<not> isl (os_Stat ?E (filepath_Join [downloads, ''a.txt'']))"
    "os_Remove ?E (filepath_Join [downloads, ''a.txt'']) = None"
    by code_simp+
  show ?thesis
    using
      deleteFileIfExists_outcomes [where e = ?E and r = "\<lparr>Method = ''DELETE'', URL_Path = ''/ghost.txt'', URL_RawQuery = [], URL_pairs = []\<rparr>" and dir = downloads]
      deleteFileIfExists_outcomes [where e = ?E and r = "\<lparr>Method = ''DELETE'', URL_Path = ''/sub'', URL_RawQuery = [], URL_pairs = []\<rparr>" and dir = downloads]
      deleteFileIfExists_outcomes [where e = ?E and r = "\<lparr>Method = ''DELETE'', URL_Path = ''/a.txt'', URL_RawQuery = [], URL_pairs = []\<rparr>" and dir = downloads]
      g s a
    by simp
qed

subsection \<open>Directory Lister: the empty directory\<close>

text \<open>
  Claim C8.  When the directory has no entries, the listing succeeds with any algorithm
  name and its body is the JSON array with no elements, not \<open>null\<close>: the slice is made
  before the loop, so it is never \<open>nil\<close>.
\<close>

theorem empty_directory_lists_empty_array:
  assumes "os_ReadDir e dir = Inr []"
  shows "status_sent (fst (listFilesAsJson e new_ResponseWriter dir algo)) = 200 \<and>
         header (fst (listFilesAsJson e new_ResponseWriter dir algo)) ''Content-Type'' = [''application/json''] \<and>
         written (fst (listFilesAsJson e new_ResponseWriter dir algo)) = [JsonDoc (JArr [])] \<and>
         written (fst (listFilesAsJson e new_ResponseWriter dir algo)) \<noteq> [JsonDoc JNull]"
  using assms
  by (simp add: listFilesAsJson_def make_slice_def insertion_sort_def Write_def WriteHeader_def
      Header_Add_def new_ResponseWriter_def status_sent_def Let_def)

theorem empty_directory_lists_empty_array_witness:
  "os_ReadDir (platform_with []) downloads = Inr [] \<and>
   status_sent (fst (listFilesAsJson (platform_with []) new_ResponseWriter downloads ''md5'')) = 200 \<and>
   written (fst (listFilesAsJson (platform_with []) new_ResponseWriter downloads ''md5'')) =
     [JsonDoc (JArr [])]"
proof -
  have h: "os_ReadDir (platform_with []) downloads = Inr []"
    by code_simp
  show ?thesis
    using h empty_directory_lists_empty_array [OF h, of "''md5''"] by simp
qed

subsection \<open>Directory Lister: sorting, hashing and the loop\<close>

lemma set_insert_left: "set (insert_left lt x ys) = insert x (set ys)"
  by (induction ys) auto

lemma length_insert_left: "length (insert_left lt x ys) = Suc (length ys)"
  by (induction ys) auto

lemma set_foldl_insert_left:
  "set (foldl (\<lambda>acc x. insert_left lt x acc) acc xs) = set acc \<union> set xs"
  by (induction xs arbitrary: acc) (auto simp: set_insert_left)

lemma length_foldl_insert_left:
  "length (foldl (\<lambda>acc x. insert_left lt x acc) acc xs) = length acc + length xs"
  by (induction xs arbitrary: acc) (auto simp: length_insert_left)

lemma set_insertion_sort: "set (insertion_sort lt xs) = set xs"
  by (simp add: insertion_sort_def set_foldl_insert_left)

lemma length_insertion_sort: "length (insertion_sort lt xs) = length xs"
  by (simp add: insertion_sort_def length_foldl_insert_left)

lemma sorted_insert_left:
  "sorted_wrt (\<lambda>a b. sint (LastModified a) \<le> sint (LastModified b)) ys \<Longrightarrow>
   sorted_wrt (\<lambda>a b. sint (LastModified a) \<le> sint (LastModified b)) (insert_left newer x ys)"
  by (induction ys) (auto simp: set_insert_left newer_def)

lemma sorted_foldl_insert_left:
  "sorted_wrt (\<lambda>a b. sint (LastModified a) \<le> sint (LastModified b)) acc \<Longrightarrow>
   sorted_wrt (\<lambda>a b. sint (LastModified a) \<le> sint (LastModified b))
     (foldl (\<lambda>acc x. insert_left newer x acc) acc xs)"
  by (induction xs arbitrary: acc) (auto simp: sorted_insert_left)

lemma sorted_insertion_sort:
  "sorted_wrt (\<lambda>a b. sint (LastModified b) \<le> sint (LastModified a)) (insertion_sort newer xs)"
proof -
  have "sorted_wrt (\<lambda>a b. sint (LastModified a) \<le> sint (LastModified b))
          (foldl (\<lambda>acc x. insert_left newer x acc) [] xs)"
    by (rule sorted_foldl_insert_left) simp
  then show ?thesis
    by (simp add: insertion_sort_def sorted_wrt_rev)
qed

lemma getHash_fails_iff:
  "isl (fst (getHash e file algo)) \<longleftrightarrow>
     (case os_Open e file of Inl _ \<Rightarrow> True | Inr f \<Rightarrow> NewHash algo \<noteq> None \<and> isl (read_all f))"
  by (auto simp: getHash_def io_Copy_def split: sum.splits option.splits)

lemma getHash_calls:
  "\<not> isl (fst (getHash e file algo)) \<Longrightarrow>
   snd (getHash e file algo) =
     [Open file] @ (if NewHash algo = None then [] else [Read file]) @ [Close file]"
  by (auto simp: getHash_def io_Copy_def split: sum.splits option.splits)

lemma getHash_no_hash:
  "NewHash algo = None \<Longrightarrow> fst (getHash e file algo) = Inr h \<Longrightarrow> h = []"
  by (auto simp: getHash_def split: sum.splits)

lemma getHash_no_Read:
  "NewHash algo = None \<Longrightarrow> Read p \<notin> set (snd (getHash e file algo))"
  by (auto simp: getHash_def split: sum.splits)

lemma getHash_opens: "Open file \<in> set (snd (getHash e file algo))"
  by (auto simp: getHash_def io_Copy_def split: sum.splits option.splits)

lemma not_isl_pair:
  assumes "\<not> isl (fst p)"
  obtains h t where "p = (Inr h, t)"
proof -
  obtain a t where p: "p = (a, t)" by (cases p)
  with assms obtain h where "a = Inr h" by (cases a) auto
  with p that show thesis by simp
qed

lemma list_entries_fails:
  "list_ex (entry_fails e dir algo) es \<Longrightarrow>
   \<exists>msg t. list_entries e w dir algo es files = (Inl (http_Error w msg 500), t)"
proof (induction es arbitrary: files)
  case Nil
  then show ?case by simp
next
  case (Cons entry rest)
  show ?case
  proof (cases "entry_fails e dir algo entry")
    case True
    then show ?thesis
      using getHash_fails_iff [of e "dir @ ''/'' @ de_Name entry" algo]
      by (cases "getHash e (dir @ ''/'' @ de_Name entry) algo")
         (auto simp: entry_fails_def split: sum.splits)
  next
    case False
    then have rest: "list_ex (entry_fails e dir algo) rest"
      using Cons.prems by simp
    from False obtain info where info: "de_Info entry = Inr info"
      by (auto simp: entry_fails_def split: sum.splits)
    from False info have nf: "\<not> isl (fst (getHash e (dir @ ''/'' @ de_Name entry) algo))"
      using getHash_fails_iff [of e "dir @ ''/'' @ de_Name entry" algo]
      by (auto simp: entry_fails_def split: sum.splits)
    from nf obtain h t where h: "getHash e (dir @ ''/'' @ de_Name entry) algo = (Inr h, t)"
      by (rule not_isl_pair)
    from Cons.IH [OF rest] obtain msg t' where
      "list_entries e w dir algo rest
         (append_slice files \<lparr>Name = fi_Name info, Size = fi_Size info,
            LastModified = fi_ModTime_Unix info, HashSum = h\<rparr>) = (Inl (http_Error w msg 500), t')"
      by blast
    with info h show ?thesis by auto
  qed
qed

lemma list_entries_succeeds:
  "\<not> list_ex (entry_fails e dir algo) es \<Longrightarrow>
   list_entries e w dir algo es (Slice xs) =
     (Inr (Slice (xs @ map (entry_record e dir algo) es)), concat (map (entry_calls dir algo) es))"
proof (induction es arbitrary: xs)
  case Nil
  then show ?case by simp
next
  case (Cons entry rest)
  then have ok: "\<not> entry_fails e dir algo entry" and rest: "\<not> list_ex (entry_fails e dir algo) rest"
    by simp_all
  from ok obtain info where info: "de_Info entry = Inr info"
    by (auto simp: entry_fails_def split: sum.splits)
  from ok info have nf: "\<not> isl (fst (getHash e (dir @ ''/'' @ de_Name entry) algo))"
    using getHash_fails_iff [of e "dir @ ''/'' @ de_Name entry" algo]
    by (auto simp: entry_fails_def split: sum.splits)
  from nf obtain h t where h: "getHash e (dir @ ''/'' @ de_Name entry) algo = (Inr h, t)"
    by (rule not_isl_pair)
  have t: "t = [Open (dir @ ''/'' @ de_Name entry)]
             @ (if NewHash algo = None then [] else [Read (dir @ ''/'' @ de_Name entry)])
             @ [Close (dir @ ''/'' @ de_Name entry)]"
    using getHash_calls [OF nf] h by simp
  have r: "entry_record e dir algo entry =
             \<lparr>Name = fi_Name info, Size = fi_Size info,
              LastModified = fi_ModTime_Unix info, HashSum = h\<rparr>"
    using h by (simp add: entry_record_def info)
  show ?case
    using Cons.IH [OF rest, of "xs @ [entry_record e dir algo entry]"] info h
    by (simp add: r t entry_calls_def Let_def)
qed

lemma listFilesAsJson_fails:
  assumes "listing_fails e dir algo"
  shows "\<exists>msg. fst (listFilesAsJson e w dir algo) = http_Error w msg 500"
proof (cases "os_ReadDir e dir")
  case (Inl err)
  then show ?thesis by (auto simp: listFilesAsJson_def)
next
  case (Inr es)
  with assms have "list_ex (entry_fails e dir algo) es"
    by (simp add: listing_fails_def)
  from list_entries_fails [OF this, of w make_slice] obtain msg t where
    "list_entries e w dir algo es make_slice = (Inl (http_Error w msg 500), t)" by blast
  with Inr show ?thesis by (auto simp: listFilesAsJson_def)
qed

lemma listFilesAsJson_succeeds:
  assumes "\<not> listing_fails e dir algo"
  shows "\<exists>es. os_ReadDir e dir = Inr es \<and>
           listFilesAsJson e w dir algo =
             (Write (JsonDoc (JArr (map marshal_FileInfo
                       (insertion_sort newer (map (entry_record e dir algo) es)))))
                (Header_Add ''Content-Type'' ''application/json'' w),
              ReadDir dir # concat (map (entry_calls dir algo) es))"
proof (cases "os_ReadDir e dir")
  case (Inl err)
  with assms show ?thesis by (simp add: listing_fails_def)
next
  case (Inr es)
  with assms have "\<not> list_ex (entry_fails e dir algo) es"
    by (simp add: listing_fails_def)
  from list_entries_succeeds [OF this, of w "[]"] Inr show ?thesis
    by (simp add: listFilesAsJson_def make_slice_def newer_def [abs_def] Let_def)
qed

lemma json_never_after_failure:
  assumes "written (fst (listFilesAsJson e new_ResponseWriter dir algo)) = [JsonDoc j]"
  shows "\<not> listing_fails e dir algo"
proof
  assume "listing_fails e dir algo"
  from listFilesAsJson_fails [OF this, of new_ResponseWriter] obtain msg where
    "fst (listFilesAsJson e new_ResponseWriter dir algo) = http_Error new_ResponseWriter msg 500"
    by blast
  with assms show False by (simp add: http_Error_fresh)
qed

lemma listing_body:
  assumes "\<not> listing_fails e dir algo"
  shows "\<exists>es. os_ReadDir e dir = Inr es \<and>
           status (fst (listFilesAsJson e new_ResponseWriter dir algo)) = Some 200 \<and>
           header (fst (listFilesAsJson e new_ResponseWriter dir algo)) ''Content-Type'' =
             [''application/json''] \<and>
           written (fst (listFilesAsJson e new_ResponseWriter dir algo)) =
             [JsonDoc (JArr (map marshal_FileInfo
                (insertion_sort newer (map (entry_record e dir algo) es))))]"
proof -
  from listFilesAsJson_succeeds [OF assms, of new_ResponseWriter] obtain es where
    es: "os_ReadDir e dir = Inr es"
    and l: "listFilesAsJson e new_ResponseWriter dir algo =
             (Write (JsonDoc (JArr (map marshal_FileInfo
                       (insertion_sort newer (map (entry_record e dir algo) es)))))
                (Header_Add ''Content-Type'' ''application/json'' new_ResponseWriter),
              ReadDir dir # concat (map (entry_calls dir algo) es))"
    by blast
  show ?thesis
    using es unfolding l
    by (simp add: Write_def WriteHeader_def Header_Add_def new_ResponseWriter_def Let_def)
qed

lemma lastModified_of_marshal:
  "json_field ''lastModified'' (marshal_FileInfo f) = Some (JNum (sint (LastModified f)))"
  by (simp add: marshal_FileInfo_def)

lemma marshal_without_hashSum:
  "HashSum f = [] \<Longrightarrow> \<exists>kvs. marshal_FileInfo f = JObj kvs \<and> ''hashSum'' \<notin> fst ` set kvs"
  by (simp add: marshal_FileInfo_def)

lemma entry_record_no_hash:
  "NewHash algo = None \<Longrightarrow> HashSum (entry_record e dir algo entry) = []"
  using getHash_no_hash [of algo e "dir @ ''/'' @ de_Name entry"]
  by (auto simp: entry_record_def split: sum.splits)

lemma getHash_no_Read_pair:
  "NewHash algo = None \<Longrightarrow> getHash e file algo = (r, t) \<Longrightarrow> Read p \<notin> set t"
  by (metis getHash_no_Read snd_conv)

lemma list_entries_no_Read:
  "NewHash algo = None \<Longrightarrow> list_entries e w dir algo es files = (r, t) \<Longrightarrow> Read p \<notin> set t"
proof (induction es arbitrary: files r t)
  case Nil
  then show ?case by simp
next
  case (Cons entry rest)
  show ?case
    using Cons.prems Cons.IH [OF Cons.prems(1)]
      getHash_no_Read_pair [OF Cons.prems(1), of e "dir @ ''/'' @ de_Name entry" _ _ p]
    by (auto split: sum.splits prod.splits)
qed

lemma listFilesAsJson_no_Read:
  "NewHash algo = None \<Longrightarrow> Read p \<notin> set (snd (listFilesAsJson e w dir algo))"
  using list_entries_no_Read [of algo e w dir _ make_slice _ _ p]
  by (auto simp: listFilesAsJson_def Let_def split: sum.splits prod.splits)

subsection \<open>Directory Lister: the listing\<close>

text \<open>
  Claim C4.  For every listing response that carries a collection, the collection is in
  descending order of \<open>lastModified\<close>: for each two adjacent records \<open>i\<close> and \<open>i + 1\<close>,
  \<open>lastModified\<close> of record \<open>i\<close> is at least that of record \<open>i + 1\<close>.
\<close>

theorem listing_sorted_by_lastModified:
  assumes "written (fst (listFilesAsJson e new_ResponseWriter dir algo)) = [JsonDoc j]"
  shows "\<exists>objs. j = JArr objs \<and>
           (\<forall>i. i + 1 < length objs \<longrightarrow>
              (\<exists>a b. json_field ''lastModified'' (objs ! i) = Some (JNum a) \<and>
                     json_field ''lastModified'' (objs ! (i + 1)) = Some (JNum b) \<and>
                     b \<le> a))"
proof -
  from listing_body [OF json_never_after_failure [OF assms]] obtain es where
    w: "written (fst (listFilesAsJson e new_ResponseWriter dir algo)) =
          [JsonDoc (JArr (map marshal_FileInfo
             (insertion_sort newer (map (entry_record e dir algo) es))))]"
    by blast
  define fs where "fs = insertion_sort newer (map (entry_record e dir algo) es)"
  have j: "j = JArr (map marshal_FileInfo fs)"
    using assms w by (simp add: fs_def)
  have s: "sorted_wrt (\<lambda>a b. sint (LastModified b) \<le> sint (LastModified a)) fs"
    unfolding fs_def by (rule sorted_insertion_sort)
  have "\<forall>i. i + 1 < length fs \<longrightarrow> sint (LastModified (fs ! (i + 1))) \<le> sint (LastModified (fs ! i))"
    using sorted_wrt_nth_less [OF s] by simp
  then show ?thesis
    unfolding j by (auto simp: lastModified_of_marshal)
qed

theorem listing_sorted_by_lastModified_witness:
  "written (fst (listFilesAsJson (platform_with two_files) new_ResponseWriter downloads [])) =
     [JsonDoc (JArr
        [JObj [(''name'', JStr ''b.txt''), (''size'', JNum 2), (''lastModified'', JNum 200)],
         JObj [(''name'', JStr ''a.txt''), (''size'', JNum 5), (''lastModified'', JNum 100)]])] \<and>
   (\<exists>a b.
      json_field ''lastModified''
        (JObj [(''name'', JStr ''b.txt''), (''size'', JNum 2), (''lastModified'', JNum 200)]) =
        Some (JNum a) \<and>
      json_field ''lastModified''
        (JObj [(''name'', JStr ''a.txt''), (''size'', JNum 5), (''lastModified'', JNum 100)]) =
        Some (JNum b) \<and>
      b \<le> a)"
proof -
  have h: "written (fst (listFilesAsJson (platform_with two_files) new_ResponseWriter downloads [])) =
     [JsonDoc (JArr
        [JObj [(''name'', JStr ''b.txt''), (''size'', JNum 2), (''lastModified'', JNum 200)],
         JObj [(''name'', JStr ''a.txt''), (''size'', JNum 5), (''lastModified'', JNum 100)]])]"
    by code_simp
  from listing_sorted_by_lastModified [OF h] obtain objs where
    o: "JArr [JObj [(''name'', JStr ''b.txt''), (''size'', JNum 2), (''lastModified'', JNum 200)],
              JObj [(''name'', JStr ''a.txt''), (''size'', JNum 5), (''lastModified'', JNum 100)]] =
        JArr objs"
    and s: "\<forall>i. i + 1 < length objs \<longrightarrow>
              (\<exists>a b. json_field ''lastModified'' (objs ! i) = Some (JNum a) \<and>
                     json_field ''lastModified'' (objs ! (i + 1)) = Some (JNum b) \<and> b \<le> a)"
    by blast
  from o have objs: "objs =
       [JObj [(''name'', JStr ''b.txt''), (''size'', JNum 2), (''lastModified'', JNum 200)],
        JObj [(''name'', JStr ''a.txt''), (''size'', JNum 5), (''lastModified'', JNum 100)]]"
    by simp
  from s [rule_format, of 0] have
    "\<exists>a b. json_field ''lastModified'' (objs ! 0) = Some (JNum a) \<and>
           json_field ''lastModified'' (objs ! (0 + 1)) = Some (JNum b) \<and> b \<le> a"
    by (simp add: objs)
  then show ?thesis
    using h unfolding objs by simp
qed

text \<open>
  Claim C6.  For every listing request whose algorithm name is empty or unsupported and
  that succeeds, no object of the JSON array has a field \<open>hashSum\<close>: the field is left
  out, it is not there with \<open>null\<close> or with the empty string.
\<close>

theorem no_hashSum_without_algorithm:
  assumes "NewHash algo = None"
    and "written (fst (listFilesAsJson e new_ResponseWriter dir algo)) = [JsonDoc j]"
  shows "\<exists>objs. j = JArr objs \<and>
           (\<forall>obj \<in> set objs. \<exists>kvs. obj = JObj kvs \<and> ''hashSum'' \<notin> fst ` set kvs)"
proof -
  from listing_body [OF json_never_after_failure [OF assms(2)]] obtain es where
    w: "written (fst (listFilesAsJson e new_ResponseWriter dir algo)) =
          [JsonDoc (JArr (map marshal_FileInfo
             (insertion_sort newer (map (entry_record e dir algo) es))))]"
    by blast
  have j: "j = JArr (map marshal_FileInfo (insertion_sort newer (map (entry_record e dir algo) es)))"
    using assms(2) w by simp
  have "\<forall>f \<in> set (insertion_sort newer (map (entry_record e dir algo) es)). HashSum f = []"
    using entry_record_no_hash [OF assms(1)] by (auto simp: set_insertion_sort)
  then show ?thesis
    unfolding j using marshal_without_hashSum by auto
qed

theorem no_hashSum_without_algorithm_witness:
  "NewHash ''crc32'' = None \<and>
   written (fst (listFilesAsJson (platform_with two_files) new_ResponseWriter downloads ''crc32'')) =
     [JsonDoc (JArr
        [JObj [(''name'', JStr ''b.txt''), (''size'', JNum 2), (''lastModified'', JNum 200)],
         JObj [(''name'', JStr ''a.txt''), (''size'', JNum 5), (''lastModified'', JNum 100)]])] \<and>
   (\<exists>objs.
      JArr [JObj [(''name'', JStr ''b.txt''), (''size'', JNum 2), (''lastModified'', JNum 200)],
            JObj [(''name'', JStr ''a.txt''), (''size'', JNum 5), (''lastModified'', JNum 100)]] =
      JArr objs \<and>
      (\<forall>obj \<in> set objs. \<exists>kvs. obj = JObj kvs \<and> ''hashSum'' \<notin> fst ` set kvs))"
proof -
  have n: "NewHash ''crc32'' = None"
    by code_simp
  have h: "written (fst (listFilesAsJson (platform_with two_files) new_ResponseWriter downloads ''crc32'')) =
     [JsonDoc (JArr
        [JObj [(''name'', JStr ''b.txt''), (''size'', JNum 2), (''lastModified'', JNum 200)],
         JObj [(''name'', JStr ''a.txt''), (''size'', JNum 5), (''lastModified'', JNum 100)]])]"
    by code_simp
  show ?thesis
    using n h no_hashSum_without_algorithm [OF n h] by blast
qed

text \<open>
  Claim C7.  For every listing request: when a read of the file system fails (the
  directory cannot be read, the metadata of an entry cannot be read, the file of an entry
  cannot be opened or, while it is hashed, cannot be read), the response is 500 with a
  plain-text message and nothing else in the body; a JSON array is written only when
  nothing failed, and then it has one record for each entry.
\<close>

theorem listing_all_or_error:
  "(listing_fails e dir algo \<longrightarrow>
      status_sent (fst (listFilesAsJson e new_ResponseWriter dir algo)) = 500 \<and>
      header (fst (listFilesAsJson e new_ResponseWriter dir algo)) ''Content-Type'' =
        [''text/plain; charset=utf-8''] \<and>
      (\<exists>msg. written (fst (listFilesAsJson e new_ResponseWriter dir algo)) =
              [Bytes (msg @ [CHR 0x0A])])) \<and>
   (\<not> listing_fails e dir algo \<longrightarrow>
      status_sent (fst (listFilesAsJson e new_ResponseWriter dir algo)) = 200 \<and>
      (\<exists>es objs. os_ReadDir e dir = Inr es \<and> length objs = length es \<and>
         written (fst (listFilesAsJson e new_ResponseWriter dir algo)) = [JsonDoc (JArr objs)]))"
proof (intro conjI impI)
  assume "listing_fails e dir algo"
  from listFilesAsJson_fails [OF this, of new_ResponseWriter] obtain msg where
    m: "fst (listFilesAsJson e new_ResponseWriter dir algo) = http_Error new_ResponseWriter msg 500"
    by blast
  show "status_sent (fst (listFilesAsJson e new_ResponseWriter dir algo)) = 500"
    unfolding m by (simp add: status_sent_def http_Error_fresh)
  show "header (fst (listFilesAsJson e new_ResponseWriter dir algo)) ''Content-Type'' =
        [''text/plain; charset=utf-8'']"
    unfolding m by (simp add: http_Error_fresh)
  show "\<exists>msg. written (fst (listFilesAsJson e new_ResponseWriter dir algo)) =
              [Bytes (msg @ [CHR 0x0A])]"
    unfolding m by (simp add: http_Error_fresh)
next
  assume ok: "\<not> listing_fails e dir algo"
  from listing_body [OF ok] obtain es where
    b: "os_ReadDir e dir = Inr es"
      "status (fst (listFilesAsJson e new_ResponseWriter dir algo)) = Some 200"
      "written (fst (listFilesAsJson e new_ResponseWriter dir algo)) =
         [JsonDoc (JArr (map marshal_FileInfo
            (insertion_sort newer (map (entry_record e dir algo) es))))]"
    by blast
  show "status_sent (fst (listFilesAsJson e new_ResponseWriter dir algo)) = 200"
    by (simp add: status_sent_def b)
  show "\<exists>es objs. os_ReadDir e dir = Inr es \<and> length objs = length es \<and>
         written (fst (listFilesAsJson e new_ResponseWriter dir algo)) = [JsonDoc (JArr objs)]"
    using b by (simp add: length_insertion_sort)
qed

theorem listing_all_or_error_witness:
  "listing_fails (platform_with two_files) ''/nowhere'' [] \<and>
   status_sent (fst (listFilesAsJson (platform_with two_files) new_ResponseWriter ''/nowhere'' [])) = 500 \<and>
   listing_fails platform_vanished downloads [] \<and>
   status_sent (fst (listFilesAsJson platform_vanished new_ResponseWriter downloads [])) = 500 \<and>
   listing_fails (platform_with locked_file) downloads ''sha1'' \<and>
   status_sent (fst (listFilesAsJson (platform_with locked_file) new_ResponseWriter downloads ''sha1'')) = 500 \<and>
   listing_fails (platform_with files_and_subdir) downloads ''md5'' \<and>
   status_sent (fst (listFilesAsJson (platform_with files_and_subdir) new_ResponseWriter downloads ''md5'')) = 500 \<and>
   \<not> listing_fails (platform_with two_files) downloads ''md5'' \<and>
   status_sent (fst (listFilesAsJson (platform_with two_files) new_ResponseWriter downloads ''md5'')) = 200"
proof -
  have f: "listing_fails (platform_with two_files) ''/nowhere'' []"
    "listing_fails platform_vanished downloads []"
    "listing_fails (platform_with locked_file) downloads ''sha1''"
    "listing_fails (platform_with files_and_subdir) downloads ''md5''"
    "\<not> listing_fails (platform_with two_files) downloads ''md5''"
    by code_simp+
  show ?thesis
    using f
      listing_all_or_error [of "platform_with two_files" "''/nowhere''" "[]"]
      listing_all_or_error [of platform_vanished downloads "[]"]
      listing_all_or_error [of "platform_with locked_file" downloads "''sha1''"]
      listing_all_or_error [of "platform_with files_and_subdir" downloads "''md5''"]
      listing_all_or_error [of "platform_with two_files" downloads "''md5''"]
    by blast
qed

text \<open>
  Claim C3, as the specification states it: the file of an entry is opened and streamed
  through a digest only if the algorithm name is supported, and with an empty or unsupported
  name only the metadata of the entries is read.  This fails: \<open>getHash\<close> opens the file
  before it looks the algorithm up.  With the empty name the file of the entry is opened,
  and when it cannot be opened the listing answers 500.
\<close>

theorem only_metadata_without_algorithm_counterexample:
  "NewHash [] = None \<and>
   Open ''/home/selenium/Downloads/a.txt''
     \<in> set (snd (listFilesAsJson (platform_with locked_file) new_ResponseWriter downloads [])) \<and>
   status_sent (fst (listFilesAsJson (platform_with locked_file) new_ResponseWriter downloads [])) = 500 \<and>
   written (fst (listFilesAsJson (platform_with locked_file) new_ResponseWriter downloads [])) =
     [Bytes (''failed to open file: open /home/selenium/Downloads/a.txt: permission denied''
             @ [CHR 0x0A])]"
  by code_simp

lemma getHash_calls_for:
  "snd (getHash e file algo) =
     Open file #
     (case os_Open e file of
        Inl _ \<Rightarrow> []
      | Inr _ \<Rightarrow> (if NewHash algo = None then [] else [Read file]) @ [Close file])"
  by (auto simp: getHash_def io_Copy_def split: sum.splits option.splits)

lemma list_entries_calls:
  "snd (list_entries e w dir algo es files) =
     concat (map (calls_for e dir algo) (handled (entry_fails e dir algo) es))"
proof (induction es arbitrary: files)
  case Nil
  then show ?case by simp
next
  case (Cons entry rest)
  let ?file = "dir @ ''/'' @ de_Name entry"
  show ?case
  proof (cases "de_Info entry")
    case (Inl err)
    then show ?thesis
      by (simp add: entry_fails_def calls_for_def)
  next
    case (Inr info)
    obtain res t where g: "getHash e ?file algo = (res, t)"
      by (cases "getHash e ?file algo")
    have t: "t = Open ?file #
               (case os_Open e ?file of
                  Inl _ \<Rightarrow> []
                | Inr _ \<Rightarrow> (if NewHash algo = None then [] else [Read ?file]) @ [Close ?file])"
      using getHash_calls_for [of e ?file algo] g by simp
    have c: "calls_for e dir algo entry = EntryInfo (de_Name entry) # t"
      unfolding t by (auto simp: calls_for_def Inr Let_def split: sum.splits)
    have f: "entry_fails e dir algo entry \<longleftrightarrow> isl res"
      using getHash_fails_iff [of e ?file algo] g
      by (simp add: entry_fails_def Inr)
    show ?thesis
    proof (cases res)
      case (Inl err)
      with f have "entry_fails e dir algo entry" by simp
      then show ?thesis
        using Inr g Inl c by simp
    next
      case (Inr hashFile)
      with f have nf: "\<not> entry_fails e dir algo entry" by simp
      obtain r' t' where l: "list_entries e w dir algo rest
             (append_slice files \<lparr>Name = fi_Name info, Size = fi_Size info,
                LastModified = fi_ModTime_Unix info, HashSum = hashFile\<rparr>) = (r', t')"
        by (cases "list_entries e w dir algo rest
             (append_slice files \<lparr>Name = fi_Name info, Size = fi_Size info,
                LastModified = fi_ModTime_Unix info, HashSum = hashFile\<rparr>)")
      have "t' = concat (map (calls_for e dir algo) (handled (entry_fails e dir algo) rest))"
        using Cons.IH [of "append_slice files \<lparr>Name = fi_Name info, Size = fi_Size info,
                LastModified = fi_ModTime_Unix info, HashSum = hashFile\<rparr>"] l by simp
      then show ?thesis
        using \<open>de_Info entry = Inr info\<close> g Inr l nf c by simp
    qed
  qed
qed

lemma listFilesAsJson_calls:
  assumes "os_ReadDir e dir = Inr es"
  shows "snd (listFilesAsJson e w dir algo) =
           ReadDir dir # concat (map (calls_for e dir algo) (handled (entry_fails e dir algo) es))"
proof -
  obtain res t where l: "list_entries e w dir algo es make_slice = (res, t)"
    by (cases "list_entries e w dir algo es make_slice")
  have "t = concat (map (calls_for e dir algo) (handled (entry_fails e dir algo) es))"
    using list_entries_calls [of e w dir algo es make_slice] l by simp
  then show ?thesis
    using assms l by (cases res) (simp_all add: listFilesAsJson_def Let_def)
qed

lemma calls_for_opens:
  "\<not> isl (de_Info entry) \<Longrightarrow> Open (dir @ ''/'' @ de_Name entry) \<in> set (calls_for e dir algo entry)"
  by (cases "de_Info entry") (simp_all add: calls_for_def Let_def)

text \<open>
  Claim C3, amended.  For every listing request, the entries are handled in order, up to
  the first one for which a read fails.  For each entry handled whose metadata was read,
  \<open>os.Open\<close> is called on its file whatever the algorithm name, and a file that was
  opened is closed again; its contents are read, through the digest, only if the algorithm
  name maps to a supported algorithm.  With an empty or unsupported name no file is read
  and no record has a hash.
\<close>

theorem files_opened_whatever_algorithm:
  "(\<forall>es. os_ReadDir e dir = Inr es \<longrightarrow>
      snd (listFilesAsJson e new_ResponseWriter dir algo) =
        ReadDir dir #
        concat (map (calls_for e dir algo) (handled (entry_fails e dir algo) es)) \<and>
      (\<forall>entry \<in> set (handled (entry_fails e dir algo) es).
         \<not> isl (de_Info entry) \<longrightarrow>
         Open (dir @ ''/'' @ de_Name entry)
           \<in> set (snd (listFilesAsJson e new_ResponseWriter dir algo)))) \<and>
   (\<forall>p. Read p \<in> set (snd (listFilesAsJson e new_ResponseWriter dir algo)) \<longrightarrow>
        NewHash algo \<noteq> None) \<and>
   (NewHash algo = None \<longrightarrow>
      (\<forall>j. written (fst (listFilesAsJson e new_ResponseWriter dir algo)) = [JsonDoc j] \<longrightarrow>
         (\<exists>objs. j = JArr objs \<and> (\<forall>obj \<in> set objs. json_field ''hashSum'' obj = None))))"
proof (intro conjI allI impI ballI)
  fix es
  assume rd: "os_ReadDir e dir = Inr es"
  show c: "snd (listFilesAsJson e new_ResponseWriter dir algo) =
        ReadDir dir #
        concat (map (calls_for e dir algo) (handled (entry_fails e dir algo) es))"
    by (rule listFilesAsJson_calls [OF rd])
  fix entry
  assume "entry \<in> set (handled (entry_fails e dir algo) es)" and "\<not> isl (de_Info entry)"
  then show "Open (dir @ ''/'' @ de_Name entry)
           \<in> set (snd (listFilesAsJson e new_ResponseWriter dir algo))"
    unfolding c using calls_for_opens [of entry dir e algo] by auto
next
  fix p
  assume "Read p \<in> set (snd (listFilesAsJson e new_ResponseWriter dir algo))"
  then show "NewHash algo \<noteq> None"
    using listFilesAsJson_no_Read [of algo p e new_ResponseWriter dir] by blast
next
  fix j
  assume n: "NewHash algo = None"
    and w: "written (fst (listFilesAsJson e new_ResponseWriter dir algo)) = [JsonDoc j]"
  from listing_body [OF json_never_after_failure [OF w]] obtain es where
    b: "written (fst (listFilesAsJson e new_ResponseWriter dir algo)) =
          [JsonDoc (JArr (map marshal_FileInfo
             (insertion_sort newer (map (entry_record e dir algo) es))))]"
    by blast
  have j: "j = JArr (map marshal_FileInfo (insertion_sort newer (map (entry_record e dir algo) es)))"
    using w b by simp
  have "\<forall>f \<in> set (insertion_sort newer (map (entry_record e dir algo) es)). HashSum f = []"
    using entry_record_no_hash [OF n] by (auto simp: set_insertion_sort)
  then show "\<exists>objs. j = JArr objs \<and> (\<forall>obj \<in> set objs. json_field ''hashSum'' obj = None)"
    unfolding j by (auto simp: marshal_FileInfo_def)
qed

theorem files_opened_whatever_algorithm_witness:
  "snd (listFilesAsJson (platform_with locked_then_readable) new_ResponseWriter downloads []) =
     [ReadDir ''/home/selenium/Downloads'',
      EntryInfo ''a.txt'', Open ''/home/selenium/Downloads/a.txt''] \<and>
   snd (listFilesAsJson (platform_with two_files) new_ResponseWriter downloads []) =
     [ReadDir ''/home/selenium/Downloads'',
      EntryInfo ''a.txt'', Open ''/home/selenium/Downloads/a.txt'',
      Close ''/home/selenium/Downloads/a.txt'',
      EntryInfo ''b.txt'', Open ''/home/selenium/Downloads/b.txt'',
      Close ''/home/selenium/Downloads/b.txt''] \<and>
   snd (listFilesAsJson (platform_with two_files) new_ResponseWriter downloads ''md5'') =
     [ReadDir ''/home/selenium/Downloads'',
      EntryInfo ''a.txt'', Open ''/home/selenium/Downloads/a.txt'',
      Read ''/home/selenium/Downloads/a.txt'', Close ''/home/selenium/Downloads/a.txt'',
      EntryInfo ''b.txt'', Open ''/home/selenium/Downloads/b.txt'',
      Read ''/home/selenium/Downloads/b.txt'', Close ''/home/selenium/Downloads/b.txt''] \<and>
   (\<forall>p. Read p \<notin> set (snd (listFilesAsJson (platform_with two_files) new_ResponseWriter
                              downloads [])))"
proof -
  let ?L = "platform_with locked_then_readable"
  let ?T = "platform_with two_files"
  obtain esL where rL: "os_ReadDir ?L downloads = Inr esL"
  proof -
    have "\<not> isl (os_ReadDir ?L downloads)" by code_simp
    then show ?thesis using that by (cases "os_ReadDir ?L downloads") auto
  qed
  obtain esT where rT: "os_ReadDir ?T downloads = Inr esT"
  proof -
    have "\<not> isl (os_ReadDir ?T downloads)" by code_simp
    then show ?thesis using that by (cases "os_ReadDir ?T downloads") auto
  qed
  have cL: "ReadDir downloads #
              concat (map (calls_for ?L downloads [])
                (handled (entry_fails ?L downloads []) (projr (os_ReadDir ?L downloads)))) =
            [ReadDir ''/home/selenium/Downloads'',
             EntryInfo ''a.txt'', Open ''/home/selenium/Downloads/a.txt'']"
    by code_simp
  have cT: "ReadDir downloads #
              concat (map (calls_for ?T downloads [])
                (handled (entry_fails ?T downloads []) (projr (os_ReadDir ?T downloads)))) =
            [ReadDir ''/home/selenium/Downloads'',
             EntryInfo ''a.txt'', Open ''/home/selenium/Downloads/a.txt'',
             Close ''/home/selenium/Downloads/a.txt'',
             EntryInfo ''b.txt'', Open ''/home/selenium/Downloads/b.txt'',
             Close ''/home/selenium/Downloads/b.txt'']"
    by code_simp
  have cM: "ReadDir downloads #
              concat (map (calls_for ?T downloads ''md5'')
                (handled (entry_fails ?T downloads ''md5'') (projr (os_ReadDir ?T downloads)))) =
            [ReadDir ''/home/selenium/Downloads'',
             EntryInfo ''a.txt'', Open ''/home/selenium/Downloads/a.txt'',
             Read ''/home/selenium/Downloads/a.txt'', Close ''/home/selenium/Downloads/a.txt'',
             EntryInfo ''b.txt'', Open ''/home/selenium/Downloads/b.txt'',
             Read ''/home/selenium/Downloads/b.txt'', Close ''/home/selenium/Downloads/b.txt'']"
    by code_simp
  have n: "NewHash [] = None"
    by code_simp
  show ?thesis
    using files_opened_whatever_algorithm [of ?L downloads "[]"]
      files_opened_whatever_algorithm [of ?T downloads "[]"]
      files_opened_whatever_algorithm [of ?T downloads "''md5''"]
      rL rT cL cT cM n
    by (auto simp del: One_nat_def)
qed

subsection \<open>Paths and the tree of files\<close>

lemma split_slash_not_Nil: "split_slash s \<noteq> []"
  by (induction s) (auto split: list.splits)

lemma split_slash_append:
  "split_slash (a @ CHR ''/'' # b) = split_slash a @ split_slash b"
proof (induction a)
  case Nil
  then show ?case by simp
next
  case (Cons c a)
  obtain x xs where x: "split_slash a = x # xs"
    using split_slash_not_Nil [of a] by (cases "split_slash a") auto
  show ?case
    using Cons.IH by (simp add: x)
qed

lemma split_slash_name: "CHR ''/'' \<notin> set n \<Longrightarrow> split_slash n = [n]"
  by (induction n) auto

lemma elements_child:
  "valid_name n \<Longrightarrow> elements (dir @ CHR ''/'' # n) = elements dir @ [n]"
  by (simp add: elements_def split_slash_append split_slash_name valid_name_def)

lemma elements_trailing_slash: "elements (dir @ [CHR ''/'']) = elements dir"
  by (simp add: elements_def split_slash_append)

lemma rooted_append: "dir \<noteq> [] \<Longrightarrow> rooted (dir @ x) = rooted dir"
  by (cases dir) (simp_all add: rooted_def)

lemma filepath_Clean_not_Nil: "filepath_Clean p \<noteq> []"
  by (simp add: filepath_Clean_def Let_def)

lemma filepath_Clean_trailing_slash:
  "dir \<noteq> [] \<Longrightarrow> filepath_Clean (dir @ [CHR ''/'']) = filepath_Clean dir"
  using rooted_append [of dir "[CHR ''/'']"]
  by (simp add: filepath_Clean_def elements_trailing_slash)

lemma filepath_Join_empty_name:
  assumes "dir \<noteq> []"
  shows "filepath_Join [dir, []] = filepath_Clean dir"
proof -
  have "filepath_Join [dir, []] = filepath_Clean (dir @ [CHR ''/''])"
    using assms by (simp add: filepath_Join_def)
  then show ?thesis
    by (simp add: filepath_Clean_trailing_slash [OF assms])
qed

lemma walk_append:
  "walk st (xs @ ys) = (case walk st xs of Inl err \<Rightarrow> Inl err | Inr st' \<Rightarrow> walk st' ys)"
proof (induction st xs rule: walk.induct)
  case (1 st)
  then show ?case by simp
next
  case (2 up c m r x xs)
  then show ?case by simp
next
  case (3 up es sz m x xs)
  then show ?case by (auto split: list.splits option.splits)
qed

lemma resolve_child:
  assumes "resolve fs dir = Inr (ups, Dir es sz m)" and "valid_name n"
  shows "resolve fs (dir @ CHR ''/'' # n) =
           (case map_of es n of None \<Rightarrow> Inl ENOENT | Some c \<Rightarrow> Inr (Dir es sz m # ups, c))"
proof -
  from assms(1) have w: "walk ([], fs) (elements dir) = Inr (ups, Dir es sz m)"
    by (auto simp: resolve_def split: if_splits)
  have "n \<noteq> ''..''" using assms(2) by (simp add: valid_name_def)
  then show ?thesis
    using w by (simp add: resolve_def elements_child [OF assms(2)] walk_append split: option.splits)
qed

lemma posix_fields:
  "os_ReadDir (posix fs dg srv) = posix_ReadDir fs"
  "os_Open (posix fs dg srv) = posix_Open fs"
  "os_Stat (posix fs dg srv) = posix_Stat fs"
  "os_Remove (posix fs dg srv) = posix_Remove fs"
  by (simp_all add: posix_def)

lemma wf_entry:
  assumes "wf_node (Dir es sz m)" and "(k, x) \<in> set es"
  shows "valid_name k" and "map_of es k = Some x"
  using assms by (auto simp: list_all_iff)

lemma posix_Open_child:
  assumes "resolve fs dir = Inr (ups, Dir es sz m)" and "wf_node (Dir es sz m)"
    and "(k, x) \<in> set es"
  shows "posix_Open fs (dir @ CHR ''/'' # k) =
           (case x of
              File c t r \<Rightarrow>
                if r then Inr \<lparr>read_all = Inr c\<rparr>
                else Inl (PathError ''open'' (dir @ CHR ''/'' # k) EACCES)
            | Dir es' sz' t \<Rightarrow>
                Inr \<lparr>read_all = Inl (PathError ''read'' (dir @ CHR ''/'' # k) EISDIR)\<rparr>)"
  using resolve_child [OF assms(1) wf_entry(1) [OF assms(2,3)]] wf_entry(2) [OF assms(2,3)]
  by (simp add: posix_Open_def split: node.splits)

lemma posix_ReadDir_entries:
  assumes "resolve fs dir = Inr (ups, Dir es sz m)"
  shows "\<exists>ents. posix_ReadDir fs dir = Inr ents \<and>
           set ents = (\<lambda>(name, x). \<lparr>de_Name = name, de_Info = Inr (info_of name x)\<rparr>) ` set es"
  using assms by (simp add: posix_ReadDir_def set_insertion_sort)

text \<open>
  Claim C9.  The directory that \<open>main\<close> gives to \<open>mux\<close> comes out of \<open>filepath.Join\<close>,
  so it is clean.  For a \<open>DELETE\<close> request whose path is exactly \<open>/\<close>, with such a
  directory that exists on the tree (and is not its root): the file name is empty, the
  joined target is the directory itself, \<open>os.Stat\<close> finds it and \<open>os.Remove\<close> is called on
  it; the removal succeeds when the directory is empty (nothing is written, status 200) and
  otherwise the response is the 500 of a failed removal.
\<close>

theorem delete_root_path_targets_directory:
  assumes "filepath_Clean dir = dir"
    and "resolve fs dir = Inr (p # ups, Dir es sz m)"
    and "Method r = ''DELETE''" and "URL_Path r = ''/''"
  shows "strings_TrimPrefix_slash (URL_Path r) = [] \<and>
         filepath_Join [dir, strings_TrimPrefix_slash (URL_Path r)] = dir \<and>
         snd (mux (posix fs dg srv) dir new_ResponseWriter r) = [Stat dir, Remove dir] \<and>
         (es = [] \<longrightarrow>
            status_sent (fst (mux (posix fs dg srv) dir new_ResponseWriter r)) = 200 \<and>
            written (fst (mux (posix fs dg srv) dir new_ResponseWriter r)) = []) \<and>
         (es \<noteq> [] \<longrightarrow>
            status_sent (fst (mux (posix fs dg srv) dir new_ResponseWriter r)) = 500 \<and>
            written (fst (mux (posix fs dg srv) dir new_ResponseWriter r)) =
              [Bytes (''Failed to delete file : remove '' @ dir @ '': directory not empty''
                      @ [CHR 0x0A])])"
proof -
  have name: "strings_TrimPrefix_slash (URL_Path r) = []"
    by (simp add: assms(4))
  have "dir \<noteq> []"
    using assms(1) filepath_Clean_not_Nil [of dir] by auto
  then have target: "filepath_Join [dir, []] = dir"
    by (simp add: filepath_Join_empty_name assms(1))
  have "cleanPath (URL_Path r) = URL_Path r"
    unfolding assms(4) by code_simp
  then have mux_root: "mux (posix fs dg srv) dir new_ResponseWriter r =
                         mux_handler (posix fs dg srv) dir new_ResponseWriter r"
    using mux_routed [of r] by (simp add: assms(3))
  have st: "\<exists>info. posix_Stat fs dir = Inr info"
    by (simp add: posix_Stat_def assms(2))
  have rm: "posix_Remove fs dir =
              (if es = [] then None else Some (PathError ''remove'' dir ENOTEMPTY))"
    by (simp add: posix_Remove_def assms(2))
  have m: "mux (posix fs dg srv) dir new_ResponseWriter r =
             (if es = [] then (new_ResponseWriter, [Stat dir, Remove dir])
              else (http_Error new_ResponseWriter
                      (''Failed to delete file '' @ [] @ '': '' @ PathError ''remove'' dir ENOTEMPTY) 500,
                    [Stat dir, Remove dir]))"
    using st rm
    by (auto simp: mux_root mux_handler_def assms(3) deleteFileIfExists_def name target
        posix_fields Let_def)
  show ?thesis
    unfolding m
    by (simp add: name target status_sent_def http_Error_fresh new_ResponseWriter_fields
        PathError_def)
qed

theorem delete_root_path_targets_directory_witness:
  "snd (mux (platform_with []) downloads new_ResponseWriter
          \<lparr>Method = ''DELETE'', URL_Path = ''/'', URL_RawQuery = [], URL_pairs = []\<rparr>) =
     [Stat downloads, Remove downloads] \<and>
   status_sent (fst (mux (platform_with []) downloads new_ResponseWriter
          \<lparr>Method = ''DELETE'', URL_Path = ''/'', URL_RawQuery = [], URL_pairs = []\<rparr>)) = 200 \<and>
   written (fst (mux (platform_with []) downloads new_ResponseWriter
          \<lparr>Method = ''DELETE'', URL_Path = ''/'', URL_RawQuery = [], URL_pairs = []\<rparr>)) = [] \<and>
   status_sent (fst (mux (platform_with two_files) downloads new_ResponseWriter
          \<lparr>Method = ''DELETE'', URL_Path = ''/'', URL_RawQuery = [], URL_pairs = []\<rparr>)) = 500 \<and>
   written (fst (mux (platform_with two_files) downloads new_ResponseWriter
          \<lparr>Method = ''DELETE'', URL_Path = ''/'', URL_RawQuery = [], URL_pairs = []\<rparr>)) =
     [Bytes (''Failed to delete file : remove '' @ downloads @ '': directory not empty''
             @ [CHR 0x0A])]"
proof -
  let ?r = "\<lparr>Method = ''DELETE'', URL_Path = ''/'', URL_RawQuery = [], URL_pairs = []\<rparr>"
  have c: "filepath_Clean downloads = downloads"
    by code_simp
  have d0: "resolve (tree_with []) downloads =
              Inr (Dir [(''Downloads'', Dir [] 4096 300)] 4096 10 #
                   [Dir [(''selenium'', Dir [(''Downloads'', Dir [] 4096 300)] 4096 10)] 4096 10,
                    tree_with []],
                   Dir [] 4096 300)"
    by code_simp
  have d2: "resolve (tree_with two_files) downloads =
              Inr (Dir [(''Downloads'', Dir two_files 4096 300)] 4096 10 #
                   [Dir [(''selenium'', Dir [(''Downloads'', Dir two_files 4096 300)] 4096 10)] 4096 10,
                    tree_with two_files],
                   Dir two_files 4096 300)"
    by code_simp
  have ne: "two_files \<noteq> []"
    by (simp add: two_files_def)
  have m: "Method ?r = ''DELETE''" "URL_Path ?r = ''/''"
    by simp_all
  show ?thesis
    unfolding platform_with_def
    using delete_root_path_targets_directory [OF c d0 m, of "\<lambda>a bs. bs" "\<lambda>dir w r. (w, [])"]
      delete_root_path_targets_directory [OF c d2 m, of "\<lambda>a bs. bs" "\<lambda>dir w r. (w, [])"] ne
    by simp
qed

text \<open>
  Claim C10.  On the tree, for a well-formed directory that holds a subdirectory: with
  no hash asked for, and every entry one that can be opened, the listing has a record for
  the subdirectory, with the size and the modification time of the directory's own
  metadata; with a supported algorithm, the subdirectory is opened, reading it fails, and
  the whole listing answers 500 with a plain-text message.
\<close>

theorem subdirectory_listed_and_fails_hashing:
  assumes "resolve fs dir = Inr (ups, Dir es sz m)"
    and "wf_node (Dir es sz m)"
    and "(n, Dir es' sz' m') \<in> set es"
  shows
  "(NewHash algo = None \<and> list_all (\<lambda>(k, x). openable x) es \<longrightarrow>
      (\<exists>objs. written (fst (listFilesAsJson (posix fs dg srv) new_ResponseWriter dir algo)) =
                 [JsonDoc (JArr objs)] \<and>
              JObj [(''name'', JStr n), (''size'', JNum (sint sz')),
                    (''lastModified'', JNum (sint m'))] \<in> set objs)) \<and>
   (NewHash algo \<noteq> None \<longrightarrow>
      (\<exists>f. os_Open (posix fs dg srv) (dir @ ''/'' @ n) = Inr f \<and>
           (\<forall>h. io_Copy h f = Inl (PathError ''read'' (dir @ ''/'' @ n) EISDIR))) \<and>
      status_sent (fst (listFilesAsJson (posix fs dg srv) new_ResponseWriter dir algo)) = 500 \<and>
      (\<exists>msg. written (fst (listFilesAsJson (posix fs dg srv) new_ResponseWriter dir algo)) =
              [Bytes (msg @ [CHR 0x0A])]))"
proof (intro conjI impI)
  let ?E = "posix fs dg srv"
  let ?mk = "\<lambda>(name, x). \<lparr>de_Name = name, de_Info = Inr (info_of name x)\<rparr>"
  from posix_ReadDir_entries [OF assms(1)] obtain ents where
    rd: "os_ReadDir ?E dir = Inr ents" and ents: "set ents = ?mk ` set es"
    by (auto simp: posix_fields)
  have sub_open: "os_Open ?E (dir @ CHR ''/'' # n) =
                    Inr \<lparr>read_all = Inl (PathError ''read'' (dir @ CHR ''/'' # n) EISDIR)\<rparr>"
    using posix_Open_child [OF assms] by (simp add: posix_fields)
  have sub_in: "?mk (n, Dir es' sz' m') \<in> set ents"
    using assms(3) ents by blast
  {
    assume h: "NewHash algo = None \<and> list_all (\<lambda>(k, x). openable x) es"
    have "\<not> entry_fails ?E dir algo entry" if "entry \<in> set ents" for entry
    proof -
      from that ents obtain k x where kx: "(k, x) \<in> set es" and e: "entry = ?mk (k, x)"
        by auto
      from h kx have "openable x" by (auto simp: list_all_iff)
      then have "\<not> isl (posix_Open fs (dir @ CHR ''/'' # k))"
        using posix_Open_child [OF assms(1,2) kx] by (cases x) auto
      then show ?thesis
        using h by (auto simp: entry_fails_def e posix_fields split: sum.splits)
    qed
    then have ok: "\<not> listing_fails ?E dir algo"
      by (auto simp: listing_fails_def rd list_ex_iff)
    from listing_body [OF ok] rd have
      w: "written (fst (listFilesAsJson ?E new_ResponseWriter dir algo)) =
            [JsonDoc (JArr (map marshal_FileInfo
               (insertion_sort newer (map (entry_record ?E dir algo) ents))))]"
      by auto
    have "fst (getHash ?E (dir @ CHR ''/'' # n) algo) = Inr []"
      using h sub_open by (simp add: getHash_def)
    then have "entry_record ?E dir algo (?mk (n, Dir es' sz' m')) =
                 \<lparr>Name = n, Size = sz', LastModified = m', HashSum = []\<rparr>"
      by (simp add: entry_record_def info_of_def)
    then have "\<lparr>Name = n, Size = sz', LastModified = m', HashSum = []\<rparr>
                 \<in> set (insertion_sort newer (map (entry_record ?E dir algo) ents))"
      using sub_in by (force simp: set_insertion_sort)
    then have "marshal_FileInfo \<lparr>Name = n, Size = sz', LastModified = m', HashSum = []\<rparr>
                 \<in> set (map marshal_FileInfo
                      (insertion_sort newer (map (entry_record ?E dir algo) ents)))"
      by simp
    then show "\<exists>objs. written (fst (listFilesAsJson ?E new_ResponseWriter dir algo)) =
                 [JsonDoc (JArr objs)] \<and>
              JObj [(''name'', JStr n), (''size'', JNum (sint sz')),
                    (''lastModified'', JNum (sint m'))] \<in> set objs"
      unfolding w by (simp add: marshal_FileInfo_def)
  }
  {
    assume h: "NewHash algo \<noteq> None"
    show "\<exists>f. os_Open ?E (dir @ ''/'' @ n) = Inr f \<and>
           (\<forall>h. io_Copy h f = Inl (PathError ''read'' (dir @ ''/'' @ n) EISDIR))"
      using sub_open by (simp add: io_Copy_def)
    have "entry_fails ?E dir algo (?mk (n, Dir es' sz' m'))"
      using h sub_open by (simp add: entry_fails_def)
    with sub_in have f: "listing_fails ?E dir algo"
      by (auto simp: listing_fails_def rd list_ex_iff)
    from listFilesAsJson_fails [OF f, of new_ResponseWriter] obtain msg where
      m: "fst (listFilesAsJson ?E new_ResponseWriter dir algo) = http_Error new_ResponseWriter msg 500"
      by blast
    show "status_sent (fst (listFilesAsJson ?E new_ResponseWriter dir algo)) = 500"
      unfolding m by (simp add: status_sent_def http_Error_fresh)
    show "\<exists>msg. written (fst (listFilesAsJson ?E new_ResponseWriter dir algo)) =
              [Bytes (msg @ [CHR 0x0A])]"
      unfolding m by (simp add: http_Error_fresh)
  }
qed

theorem subdirectory_listed_and_fails_hashing_witness:
  "(\<exists>objs. written (fst (listFilesAsJson (platform_with files_and_subdir) new_ResponseWriter
                          downloads [])) = [JsonDoc (JArr objs)] \<and>
           JObj [(''name'', JStr ''sub''), (''size'', JNum 4096), (''lastModified'', JNum 150)]
             \<in> set objs) \<and>
   status_sent (fst (listFilesAsJson (platform_with files_and_subdir) new_ResponseWriter
                       downloads ''sha256'')) = 500"
proof -
  have d: "resolve (tree_with files_and_subdir) downloads =
             Inr ([Dir [(''Downloads'', Dir files_and_subdir 4096 300)] 4096 10,
                   Dir [(''selenium'', Dir [(''Downloads'', Dir files_and_subdir 4096 300)] 4096 10)]
                     4096 10,
                   tree_with files_and_subdir],
                  Dir files_and_subdir 4096 300)"
    by code_simp
  have wf: "wf_node (Dir files_and_subdir 4096 300)"
    by code_simp
  have sub: "(''sub'', Dir [(''x'', File [] 5 True)] 4096 150) \<in> set files_and_subdir"
    by (simp add: files_and_subdir_def)
  have n: "NewHash [] = None" "NewHash ''sha256'' \<noteq> None"
    by code_simp+
  have o: "list_all (\<lambda>(k, x). openable x) files_and_subdir"
    by (simp add: files_and_subdir_def)
  show ?thesis
    unfolding platform_with_def
    using n o
      subdirectory_listed_and_fails_hashing [OF d wf sub, of "[]" "\<lambda>a bs. bs" "\<lambda>dir w r. (w, [])"]
      subdirectory_listed_and_fails_hashing [OF d wf sub, of "''sha256''" "\<lambda>a bs. bs" "\<lambda>dir w r. (w, [])"]
    by simp
qed

end
